theory Spec2Isabelle
  imports Main
begin

section \<open>The outline provider of \<^verbatim>\<open>src/json/jsonTree.ts\<close>\<close>

text \<open>
  The class \<^verbatim>\<open>JsonTreeProvider\<close> parses the text of the active editor (JSON through
  \<^verbatim>\<open>jsonc-parser\<close>, YAML through \<^verbatim>\<open>yaml\<close>) into a tree of \<^verbatim>\<open>TreeNode\<close> objects, keeps an
  index \<^verbatim>\<open>nodeMap\<close> from offsets to those objects, and answers the tree view's queries.

  The \<^verbatim>\<open>TreeNode\<close> objects are mutable and shared: the index, the \<^verbatim>\<open>children\<close> arrays and
  the \<^verbatim>\<open>parent\<close> fields all refer to the same objects, and the builders write to an object
  after it has been put into the index. The model therefore keeps the objects in an
  explicit store (a list, the address of an object being its position) and lets every
  reference be an address.
\<close>

subsection \<open>JavaScript values\<close>

text \<open>
  The values a parser hands over in a \<^verbatim>\<open>value\<close> field or as a key. The source never
  computes with a number or an object: it asks for their \<^verbatim>\<open>typeof\<close> and for their
  \<^verbatim>\<open>toString()\<close>. So \<open>JNumber t\<close> is a number and \<open>JObject t\<close> an object or an array, each
  kept with the text \<open>t\<close> that its \<^verbatim>\<open>toString()\<close> yields (\<^verbatim>\<open>1\<close>, \<^verbatim>\<open>1.5\<close>, \<^verbatim>\<open>1e+21\<close>). A field that is
  \<^verbatim>\<open>undefined\<close> is \<open>None\<close> of an option type.
\<close>

datatype jsval = JString string | JNumber string | JBoolean bool | JNull | JObject string

datatype error = InvalidTree | InvalidEditor | NodeNotFound int | TypeError

text \<open>The digit of a number below 16, in lower case as JavaScript prints it.\<close>

definition hexDigit :: "nat \<Rightarrow> char" where
  "hexDigit n = ''0123456789abcdef'' ! (n mod 16)"

fun digits :: "nat \<Rightarrow> string" where
  "digits n = (if n < 10 then [hexDigit n] else digits (n div 10) @ [hexDigit (n mod 10)])"

declare digits.simps [simp del]

text \<open>
  The text of a position in an array, of the length of an array, or of the \<open>-1\<close> of
  \<^verbatim>\<open>indexOf\<close>. The arrays of JavaScript are shorter than \<open>2 ^ 32\<close>, and JavaScript prints
  every digit of an integer of that size.
\<close>

definition indexToString :: "int \<Rightarrow> string" where
  "indexToString i = (if i < 0 then CHR ''-'' # digits (nat (- i)) else digits (nat i))"

text \<open>\<^verbatim>\<open>v.toString()\<close>: a \<^verbatim>\<open>TypeError\<close> on \<^verbatim>\<open>null\<close>.\<close>

fun toString :: "jsval \<Rightarrow> error + string" where
  "toString (JString s) = Inr s"
| "toString (JNumber t) = Inr t"
| "toString (JBoolean b) = Inr (if b then ''true'' else ''false'')"
| "toString JNull = Inl TypeError"
| "toString (JObject s) = Inr s"

subsection \<open>The canonical tree\<close>

datatype TreeNodeType = TObject | TArray | TString | TNumber | TBoolean | TNull

type_synonym addr = nat

text \<open>
  The interface \<^verbatim>\<open>TreeNode\<close>. The fields \<^verbatim>\<open>length\<close>, \<^verbatim>\<open>type\<close> and \<^verbatim>\<open>value\<close> are \<open>nlength\<close>,
  \<open>ntype\<close> and \<open>nvalue\<close> here; an optional field is an option.
\<close>

record TreeNode =
  offset :: int
  nlength :: int
  ntype :: TreeNodeType
  nvalue :: "jsval option"
  parent :: "addr option"
  children :: "addr list option"
  key :: "jsval option"
  keyOffset :: "int option"
  keyLength :: "int option"

text \<open>The objects built so far, and \<^verbatim>\<open>this.nodeMap\<close>.\<close>

record store =
  heap :: "TreeNode list"
  nodeMap :: "int \<Rightarrow> addr option"

definition emptyStore :: store where
  "emptyStore = \<lparr>heap = [], nodeMap = (\<lambda>_. None)\<rparr>"

text \<open>A new object literal, followed by \<^verbatim>\<open>this.nodeMap.set(n.offset, n)\<close>.\<close>

definition newNode :: "TreeNode \<Rightarrow> store \<Rightarrow> addr \<times> store" where
  "newNode n s =
     (length (heap s),
      s\<lparr>heap := heap s @ [n], nodeMap := (nodeMap s)(offset n := Some (length (heap s)))\<rparr>)"

text \<open>\<^verbatim>\<open>current.children?.push(c)\<close>.\<close>

definition pushChild :: "addr \<Rightarrow> addr \<Rightarrow> store \<Rightarrow> store" where
  "pushChild cur c s =
     s\<lparr>heap := (heap s)[cur := (heap s ! cur)
          \<lparr>children := map_option (\<lambda>cs. cs @ [c]) (children (heap s ! cur))\<rparr>]\<rparr>"

text \<open>\<^verbatim>\<open>c.keyOffset = ko; c.keyLength = kl\<close>.\<close>

definition setKeySpan :: "addr \<Rightarrow> int option \<Rightarrow> int option \<Rightarrow> store \<Rightarrow> store" where
  "setKeySpan c ko kl s =
     s\<lparr>heap := (heap s)[c := (heap s ! c)\<lparr>keyOffset := ko, keyLength := kl\<rparr>]\<rparr>"

subsection \<open>The JSON builder\<close>

text \<open>
  A node of \<^verbatim>\<open>jsonc-parser\<close>: \<^verbatim>\<open>type\<close>, \<^verbatim>\<open>value\<close>, \<^verbatim>\<open>offset\<close>, \<^verbatim>\<open>length\<close>, \<^verbatim>\<open>children\<close>. The type
  is kept as the string it is, since \<^verbatim>\<open>normalizeNodeType\<close> has a default branch.
\<close>

datatype json_node =
  JNode (jtype: string) (jvalue: "jsval option") (joffset: int) (jlength: int)
    (jchildren: "json_node list option")

definition normalizeNodeType :: "string \<Rightarrow> TreeNodeType" where
  "normalizeNodeType t =
     (if t = ''object'' then TObject
      else if t = ''array'' then TArray
      else if t = ''number'' then TNumber
      else if t = ''boolean'' then TBoolean
      else if t = ''string'' then TString
      else if t = ''null'' then TNull
      else TString)"

text \<open>
  \<^verbatim>\<open>buildJsonTree(node, parent, key)\<close>, with the two loops over \<^verbatim>\<open>node.children\<close> as
  \<open>buildJsonObject\<close> (the \<^verbatim>\<open>for ... of\<close> of an object) and \<open>buildJsonArray\<close> (the \<^verbatim>\<open>forEach\<close>
  of an array, with its index). The argument is a node: the test \<^verbatim>\<open>!node\<close> of the source
  guards against \<^verbatim>\<open>undefined\<close>, which a \<^verbatim>\<open>children\<close> array does not hold, and the one read
  that can be \<^verbatim>\<open>undefined\<close>, \<^verbatim>\<open>node.children[1]\<close>, is tested before the call.
\<close>

function buildJsonTree :: "json_node \<Rightarrow> addr option \<Rightarrow> jsval option \<Rightarrow> store \<Rightarrow> addr option \<times> store"
  and buildJsonObject :: "json_node list \<Rightarrow> addr \<Rightarrow> store \<Rightarrow> store"
  and buildJsonArray :: "json_node list \<Rightarrow> nat \<Rightarrow> addr \<Rightarrow> store \<Rightarrow> store"
where
  "buildJsonTree (JNode ty v off len ch) par k s =
     (if ty = ''property'' \<and> (case ch of None \<Rightarrow> False | Some cs \<Rightarrow> cs \<noteq> []) then
        (case ch of
           Some (keyNode # valueNode # rest) \<Rightarrow>
             (case buildJsonTree valueNode par (jvalue keyNode) s of
                (Some child, s') \<Rightarrow>
                  (Some child, setKeySpan child (Some (joffset keyNode)) (Some (jlength keyNode)) s')
              | (None, s') \<Rightarrow> (None, s'))
         | _ \<Rightarrow> (None, s))
      else
        (case newNode \<lparr>offset = off, nlength = len, ntype = normalizeNodeType ty, nvalue = v,
                parent = par, children = Some [], key = k, keyOffset = None, keyLength = None\<rparr> s of
           (current, s1) \<Rightarrow>
             (Some current,
              (case ch of
                 None \<Rightarrow> s1
               | Some cs \<Rightarrow>
                   if ty = ''object'' then buildJsonObject cs current s1
                   else if ty = ''array'' then buildJsonArray cs 0 current s1
                   else s1))))"
| "buildJsonObject [] current s = s"
| "buildJsonObject (c # cs) current s =
     (case buildJsonTree c (Some current) None s of
        (Some builtChild, s') \<Rightarrow> buildJsonObject cs current (pushChild current builtChild s')
      | (None, s') \<Rightarrow> buildJsonObject cs current s')"
| "buildJsonArray [] index current s = s"
| "buildJsonArray (c # cs) index current s =
     (case buildJsonTree c (Some current) (Some (JNumber (indexToString (int index)))) s of
        (Some builtChild, s') \<Rightarrow> buildJsonArray cs (Suc index) current (pushChild current builtChild s')
      | (None, s') \<Rightarrow> buildJsonArray cs (Suc index) current s')"
  by pat_completeness auto
termination
  by (relation "measure (\<lambda>x. case x of
        Inl (n, _) \<Rightarrow> size n
      | Inr (Inl (cs, _)) \<Rightarrow> size_list size cs
      | Inr (Inr (cs, _)) \<Rightarrow> size_list size cs)") auto

subsection \<open>The YAML builder\<close>

text \<open>
  What the source reads of a node of the \<^verbatim>\<open>yaml\<close> library. A \<^verbatim>\<open>range\<close> is an array of
  entries (\<open>None\<close> for an entry that is not a number) or an object with \<^verbatim>\<open>start\<close> and
  \<^verbatim>\<open>end\<close>. \<open>YInfo r v j t\<close> holds the fields every node has: its \<^verbatim>\<open>range\<close>, its \<^verbatim>\<open>value\<close>,
  what \<^verbatim>\<open>toJSON()\<close> returns (\<open>None\<close> when the node has no such method), and what
  \<^verbatim>\<open>toString()\<close> returns. \<^verbatim>\<open>isMap\<close> holds of a \<open>YMap\<close> and \<^verbatim>\<open>isSeq\<close> of a \<open>YSeq\<close>; their
  \<^verbatim>\<open>items\<close> are arrays. An item of a sequence may be \<^verbatim>\<open>null\<close>; so may the key and the value
  of a pair.
\<close>

datatype yrange = RangeArray "int option list" | RangeObject "int option" "int option"

datatype yinfo =
  YInfo (yrange: "yrange option") (yvalue: "jsval option") (ytoJSON: "jsval option")
    (ytoString: string)

datatype yaml_node =
    YMap yinfo "ypair list"
  | YSeq yinfo "yaml_node option list"
  | YScalar yinfo
and ypair =
    YPair (pkey: "yaml_node option") (pvalue: "yaml_node option") (prange: "yrange option")

fun yinfoOf :: "yaml_node \<Rightarrow> yinfo" where
  "yinfoOf (YMap i _) = i"
| "yinfoOf (YSeq i _) = i"
| "yinfoOf (YScalar i) = i"

fun isMap :: "yaml_node \<Rightarrow> bool" where
  "isMap (YMap _ _) = True"
| "isMap _ = False"

fun isSeq :: "yaml_node \<Rightarrow> bool" where
  "isSeq (YSeq _ _) = True"
| "isSeq _ = False"

text \<open>\<^verbatim>\<open>xs[i]\<close>, where an index out of range reads \<^verbatim>\<open>undefined\<close>.\<close>

definition entry :: "int option list \<Rightarrow> nat \<Rightarrow> int option" where
  "entry xs i = (if i < length xs then xs ! i else None)"

text \<open>
  \<^verbatim>\<open>getYamlRange\<close>, on the \<^verbatim>\<open>range\<close> field of its argument. An array whose first entry is a
  number and that yields no end falls through to the second test, which fails on an array.
\<close>

definition getYamlRange :: "yrange option \<Rightarrow> (int \<times> int) option" where
  "getYamlRange r =
     (case r of
        None \<Rightarrow> None
      | Some (RangeArray xs) \<Rightarrow>
          (case entry xs 0 of
             None \<Rightarrow> None
           | Some start \<Rightarrow>
               (case (case entry xs 1 of Some e \<Rightarrow> Some e | None \<Rightarrow> entry xs 2) of
                  Some e \<Rightarrow> Some (start, e)
                | None \<Rightarrow> None))
      | Some (RangeObject a b) \<Rightarrow>
          (case (a, b) of (Some start, Some e) \<Rightarrow> Some (start, e) | _ \<Rightarrow> None))"

definition getYamlValue :: "yaml_node \<Rightarrow> jsval" where
  "getYamlValue node =
     (case yvalue (yinfoOf node) of
        Some v \<Rightarrow> v
      | None \<Rightarrow> (case ytoJSON (yinfoOf node) of Some j \<Rightarrow> j | None \<Rightarrow> JNull))"

definition getYamlNodeType :: "yaml_node \<Rightarrow> TreeNodeType" where
  "getYamlNodeType node =
     (if isMap node then TObject
      else if isSeq node then TArray
      else (case getYamlValue node of
              JString _ \<Rightarrow> TString
            | JNumber _ \<Rightarrow> TNumber
            | JBoolean _ \<Rightarrow> TBoolean
            | _ \<Rightarrow> TNull))"

definition getYamlPairKey :: "ypair \<Rightarrow> jsval option" where
  "getYamlPairKey pair =
     (case pkey pair of
        None \<Rightarrow> None
      | Some k \<Rightarrow>
          (case yvalue (yinfoOf k) of
             Some v \<Rightarrow> Some v
           | None \<Rightarrow>
               (case ytoJSON (yinfoOf k) of
                  Some j \<Rightarrow> Some j
                | None \<Rightarrow> Some (JString (ytoString (yinfoOf k))))))"

text \<open>The \<^verbatim>\<open>range\<close> field of \<^verbatim>\<open>pair.key || pair\<close>.\<close>

definition keyOrPairRange :: "ypair \<Rightarrow> yrange option" where
  "keyOrPairRange pair = (case pkey pair of Some k \<Rightarrow> yrange (yinfoOf k) | None \<Rightarrow> prange pair)"

text \<open>
  \<^verbatim>\<open>buildYamlTree(node, parent, key)\<close>. \<open>buildYamlPair\<close> is the body of the loop over the
  pairs of a mapping and \<open>buildYamlPairs\<close> the loop; \<open>buildYamlItems\<close> is the \<^verbatim>\<open>forEach\<close> over
  the items of a sequence, with its index. A \<^verbatim>\<open>null\<close> item has no range, so the call on it
  returns \<^verbatim>\<open>undefined\<close> and nothing is pushed.
\<close>

function buildYamlTree :: "yaml_node \<Rightarrow> addr option \<Rightarrow> jsval option \<Rightarrow> store \<Rightarrow> addr option \<times> store"
  and buildYamlPair :: "ypair \<Rightarrow> addr \<Rightarrow> store \<Rightarrow> store"
  and buildYamlPairs :: "ypair list \<Rightarrow> addr \<Rightarrow> store \<Rightarrow> store"
  and buildYamlItems :: "yaml_node option list \<Rightarrow> nat \<Rightarrow> addr \<Rightarrow> store \<Rightarrow> store"
where
  "buildYamlTree node par k s =
     (case getYamlRange (yrange (yinfoOf node)) of
        None \<Rightarrow> (None, s)
      | Some (start, e) \<Rightarrow>
          (case newNode \<lparr>offset = start, nlength = e - start, ntype = getYamlNodeType node,
                  nvalue = Some (getYamlValue node), parent = par, children = Some [], key = k,
                  keyOffset = None, keyLength = None\<rparr> s of
             (current, s1) \<Rightarrow>
               (Some current,
                (case node of
                   YMap _ pairs \<Rightarrow> buildYamlPairs pairs current s1
                 | YSeq _ items \<Rightarrow> buildYamlItems items 0 current s1
                 | YScalar _ \<Rightarrow> s1))))"
| "buildYamlPair (YPair pk pv pr) current s =
     (case pv of
        Some v \<Rightarrow>
          (case buildYamlTree v (Some current) (getYamlPairKey (YPair pk pv pr)) s of
             (Some childNode, s') \<Rightarrow>
               pushChild current childNode
                 (case getYamlRange (keyOrPairRange (YPair pk pv pr)) of
                    Some (ks, ke) \<Rightarrow> setKeySpan childNode (Some ks) (Some (ke - ks)) s'
                  | None \<Rightarrow> s')
           | (None, s') \<Rightarrow> s')
      | None \<Rightarrow>
          (let keyRange = getYamlRange (keyOrPairRange (YPair pk pv pr));
               nullOffset = (case keyRange of Some (ks, ke) \<Rightarrow> ke | None \<Rightarrow> offset (heap s ! current))
           in (case newNode \<lparr>offset = nullOffset, nlength = 0, ntype = TNull, nvalue = None,
                       parent = Some current, children = Some [],
                       key = getYamlPairKey (YPair pk pv pr),
                       keyOffset = map_option fst keyRange,
                       keyLength = Some (case keyRange of Some (ks, ke) \<Rightarrow> ke - ks | None \<Rightarrow> 0)\<rparr> s of
                 (nullNode, s1) \<Rightarrow> pushChild current nullNode s1)))"
| "buildYamlPairs [] current s = s"
| "buildYamlPairs (p # ps) current s = buildYamlPairs ps current (buildYamlPair p current s)"
| "buildYamlItems [] index current s = s"
| "buildYamlItems (item # items) index current s =
     (case item of
        None \<Rightarrow> buildYamlItems items (Suc index) current s
      | Some node \<Rightarrow>
          (case buildYamlTree node (Some current) (Some (JNumber (indexToString (int index)))) s of
             (Some builtChild, s') \<Rightarrow>
               buildYamlItems items (Suc index) current (pushChild current builtChild s')
           | (None, s') \<Rightarrow> buildYamlItems items (Suc index) current s'))"
  by pat_completeness auto
termination
  by (relation "measure (\<lambda>x. case x of
        Inl (Inl (n, _)) \<Rightarrow> size n
      | Inl (Inr (p, _)) \<Rightarrow> size p
      | Inr (Inl (ps, _)) \<Rightarrow> size_list size ps
      | Inr (Inr (items, _)) \<Rightarrow> size_list (size_option size) items)") auto

declare buildYamlTree.simps [simp del]

subsection \<open>Strings and the host editor\<close>

text \<open>
  The string operations of JavaScript the source uses, on strings whose characters are
  code units below 256. \<^verbatim>\<open>s.slice(a, b)\<close> counts a negative index from the end and clamps.
\<close>

definition slice :: "string \<Rightarrow> int \<Rightarrow> int \<Rightarrow> string" where
  "slice s a b =
     (let n = int (length s);
          from = (if a < 0 then max (n + a) 0 else min a n);
          to = (if b < 0 then max (n + b) 0 else min b n)
      in take (nat (to - from)) (drop (nat from) s))"

text \<open>
  The white space and line terminators that \<^verbatim>\<open>trim()\<close> strips, among the code units below
  256: tab, line feed, vertical tab, form feed, carriage return, space, no-break space.
\<close>

definition isWhiteSpace :: "char \<Rightarrow> bool" where
  "isWhiteSpace c =
     (c = CHR 0x09 \<or> c = CHR 0x0A \<or> c = CHR 0x0B \<or> c = CHR 0x0C \<or> c = CHR 0x0D \<or>
      c = CHR 0x20 \<or> c = CHR 0xA0)"

definition trim :: "string \<Rightarrow> string" where
  "trim s = rev (dropWhile isWhiteSpace (rev (dropWhile isWhiteSpace s)))"

text \<open>\<^verbatim>\<open>s.startsWith(c)\<close> for a string \<^verbatim>\<open>c\<close> of one character.\<close>

definition startsWith :: "string \<Rightarrow> char \<Rightarrow> bool" where
  "startsWith s c = (case s of [] \<Rightarrow> False | x # _ \<Rightarrow> x = c)"

text \<open>\<^verbatim>\<open>JSON.stringify\<close> of a string: the escapes of ECMAScript's \<^verbatim>\<open>QuoteJSONString\<close>.\<close>

definition quoteJSONChar :: "char \<Rightarrow> string" where
  "quoteJSONChar c =
     (if c = CHR 0x08 then [CHR 0x5C, CHR ''b'']
      else if c = CHR 0x09 then [CHR 0x5C, CHR ''t'']
      else if c = CHR 0x0A then [CHR 0x5C, CHR ''n'']
      else if c = CHR 0x0C then [CHR 0x5C, CHR ''f'']
      else if c = CHR 0x0D then [CHR 0x5C, CHR ''r'']
      else if c = CHR 0x22 then [CHR 0x5C, CHR 0x22]
      else if c = CHR 0x5C then [CHR 0x5C, CHR 0x5C]
      else if (of_char c :: nat) < 32 then
        [CHR 0x5C, CHR ''u'', CHR ''0'', CHR ''0'',
         hexDigit ((of_char c :: nat) div 16), hexDigit ((of_char c :: nat) mod 16)]
      else [c])"

definition JSON_stringify :: "string \<Rightarrow> string" where
  "JSON_stringify s = CHR 0x22 # concat (map quoteJSONChar s) @ [CHR 0x22]"

text \<open>
  The active \<^verbatim>\<open>vscode.TextEditor\<close>, as far as the source reads it: the text and the
  language id of its document.
\<close>

record TextEditor =
  docText :: string
  docLanguageId :: string

text \<open>
  \<^verbatim>\<open>document.getText(new Range(document.positionAt(a), document.positionAt(b)))\<close>: the host
  clamps an offset to the document and orders the two ends of a range.
\<close>

definition clampOffset :: "string \<Rightarrow> int \<Rightarrow> nat" where
  "clampOffset t a = nat (max 0 (min a (int (length t))))"

definition getText :: "TextEditor \<Rightarrow> int \<Rightarrow> int \<Rightarrow> string" where
  "getText ed a b =
     (let lo = min (clampOffset (docText ed) a) (clampOffset (docText ed) b);
          hi = max (clampOffset (docText ed) a) (clampOffset (docText ed) b)
      in take (hi - lo) (drop lo (docText ed)))"

text \<open>A replacement of a range of the document by a text, as \<^verbatim>\<open>editBuilder.replace\<close> gets it.\<close>

record TextEdit =
  editStart :: int
  editEnd :: int
  newText :: string

definition applyEdit :: "TextEdit \<Rightarrow> TextEditor \<Rightarrow> TextEditor" where
  "applyEdit e ed =
     (let lo = min (clampOffset (docText ed) (editStart e)) (clampOffset (docText ed) (editEnd e));
          hi = max (clampOffset (docText ed) (editStart e)) (clampOffset (docText ed) (editEnd e))
      in ed\<lparr>docText := take lo (docText ed) @ newText e @ drop hi (docText ed)\<rparr>)"

text \<open>
  The two parsers, which are libraries: \<^verbatim>\<open>json.parseTree(text)\<close> returns a root or
  \<^verbatim>\<open>undefined\<close>; \<^verbatim>\<open>parseDocument(text, ...)\<close> throws or returns a document, whose \<^verbatim>\<open>contents\<close>
  may be \<^verbatim>\<open>null\<close>.
\<close>

datatype yaml_result = YamlThrows | YamlDocument "yaml_node option"

record parsers =
  jsonParse :: "string \<Rightarrow> json_node option"
  yamlParse :: "string \<Rightarrow> yaml_result"

subsection \<open>The provider\<close>

text \<open>
  The fields of \<^verbatim>\<open>JsonTreeProvider\<close> that the operations below read or write; \<^verbatim>\<open>this.text\<close>
  is \<open>ptext\<close>. \<open>nodes\<close> holds \<^verbatim>\<open>this.nodeMap\<close> together with the \<^verbatim>\<open>TreeNode\<close> objects.
\<close>

record JsonTreeProvider =
  tree :: "addr option"
  ptext :: string
  editor :: "TextEditor option"
  languageId :: "string option"
  nodes :: store

definition isYamlLanguage :: "JsonTreeProvider \<Rightarrow> bool" where
  "isYamlLanguage p = (languageId p = Some ''yaml'')"

definition parseYamlTree :: "parsers \<Rightarrow> JsonTreeProvider \<Rightarrow> addr option \<times> store" where
  "parseYamlTree ps p =
     (case yamlParse ps (ptext p) of
        YamlThrows \<Rightarrow> (None, nodes p)
      | YamlDocument None \<Rightarrow> (None, nodes p)
      | YamlDocument (Some contents) \<Rightarrow> buildYamlTree contents None None (nodes p))"

text \<open>
  \<^verbatim>\<open>parseTree()\<close>; \<open>active\<close> is \<^verbatim>\<open>vscode.window.activeTextEditor\<close>. Once the tree and the index
  are cleared no reference to an old \<^verbatim>\<open>TreeNode\<close> is left, so the store starts empty.
\<close>

definition parseTree :: "parsers \<Rightarrow> TextEditor option \<Rightarrow> JsonTreeProvider \<Rightarrow> JsonTreeProvider" where
  "parseTree ps active p =
     (let p0 = p\<lparr>tree := None, ptext := [], editor := active, languageId := None,
                 nodes := emptyStore\<rparr>
      in (case active of
            None \<Rightarrow> p0
          | Some ed \<Rightarrow>
              (let p1 = p0\<lparr>ptext := docText ed, languageId := Some (docLanguageId ed)\<rparr>
               in if isYamlLanguage p1 then
                    (case parseYamlTree ps p1 of (t, s) \<Rightarrow> p1\<lparr>tree := t, nodes := s\<rparr>)
                  else
                    (case jsonParse ps (ptext p1) of
                       None \<Rightarrow> p1
                     | Some parsedJson \<Rightarrow>
                         (case buildJsonTree parsedJson None None (nodes p1) of
                            (t, s) \<Rightarrow> p1\<lparr>tree := t, nodes := s\<rparr>)))))"

definition getChildrenOffsets :: "JsonTreeProvider \<Rightarrow> addr \<Rightarrow> int list" where
  "getChildrenOffsets p a =
     (case children (heap (nodes p) ! a) of
        None \<Rightarrow> []
      | Some cs \<Rightarrow> map (\<lambda>c. offset (heap (nodes p) ! c)) cs)"

text \<open>
  \<^verbatim>\<open>getChildren(offset?)\<close>. The result is the value the promise resolves to; the source has
  no path on which it throws or rejects. The offset \<^verbatim>\<open>0\<close> is falsy.
\<close>

definition getChildren :: "int option \<Rightarrow> JsonTreeProvider \<Rightarrow> error + int list" where
  "getChildren off p =
     (case (case off of None \<Rightarrow> None | Some i \<Rightarrow> if i \<noteq> 0 \<and> tree p \<noteq> None then Some i else None) of
        Some i \<Rightarrow>
          (case nodeMap (nodes p) i of
             Some a \<Rightarrow> Inr (getChildrenOffsets p a)
           | None \<Rightarrow> Inr [])
      | None \<Rightarrow>
          (case tree p of
             Some r \<Rightarrow> Inr (getChildrenOffsets p r)
           | None \<Rightarrow> Inr []))"

definition getNodeChildrenCount :: "TreeNode \<Rightarrow> string" where
  "getNodeChildrenCount n =
     (case children n of None \<Rightarrow> [] | Some cs \<Rightarrow> indexToString (int (length cs)))"

text \<open>\<^verbatim>\<open>xs.indexOf(a)\<close> on an array of objects: the first position of the object, or \<open>-1\<close>.\<close>

fun indexOf :: "addr list \<Rightarrow> addr \<Rightarrow> int" where
  "indexOf [] a = - 1"
| "indexOf (x # xs) a = (if x = a then 0 else (if indexOf xs a < 0 then - 1 else indexOf xs a + 1))"

text \<open>\<^verbatim>\<open>k?.toString() ?? ''\<close>.\<close>

definition keyOrEmpty :: "jsval option \<Rightarrow> string" where
  "keyOrEmpty k =
     (case k of
        None \<Rightarrow> []
      | Some v \<Rightarrow> (case toString v of Inl _ \<Rightarrow> [] | Inr t \<Rightarrow> t))"

text \<open>The source text of the node, or \<^verbatim>\<open>undefined\<close> in a template when there is no editor.\<close>

definition nodeText :: "JsonTreeProvider \<Rightarrow> TreeNode \<Rightarrow> string" where
  "nodeText p node =
     (case editor p of
        None \<Rightarrow> ''undefined''
      | Some ed \<Rightarrow> getText ed (offset node) (offset node + nlength node))"

text \<open>\<^verbatim>\<open>getLabel(node)\<close>, of the node at an address.\<close>

definition getLabel :: "JsonTreeProvider \<Rightarrow> addr \<Rightarrow> error + string" where
  "getLabel p a =
     (let h = heap (nodes p); node = h ! a
      in (case (case parent node of
                  None \<Rightarrow> None
                | Some q \<Rightarrow> if ntype (h ! q) = TArray then Some q else None) of
            Some q \<Rightarrow>
              (let prefix = (case children (h ! q) of
                               Some cs \<Rightarrow> indexToString (indexOf cs a)
                             | None \<Rightarrow> keyOrEmpty (key node))
               in if ntype node = TObject then
                    Inr (prefix @ '': { '' @ getNodeChildrenCount node @ '' }'')
                  else if ntype node = TArray then
                    Inr (prefix @ '': [ '' @ getNodeChildrenCount node @ '' ]'')
                  else Inr (prefix @ '':'' @ nodeText p node))
          | None \<Rightarrow>
              (case (case key node of None \<Rightarrow> Inr [] | Some v \<Rightarrow> toString v) of
                 Inl e \<Rightarrow> Inl e
               | Inr property \<Rightarrow>
                   if ntype node = TObject then
                     Inr (''{ '' @ getNodeChildrenCount node @ '' } '' @ property)
                   else if ntype node = TArray then
                     Inr (''[ '' @ getNodeChildrenCount node @ '' ] '' @ property)
                   else Inr (property @ '': '' @ nodeText p node))))"

datatype TreeItemCollapsibleState = NoChildren | Collapsed | Expanded

text \<open>\<^verbatim>\<open>getIcon(node)\<close>: the paths of the light and the dark icon below the extension.\<close>

definition getIcon :: "TreeNode \<Rightarrow> (string \<times> string) option" where
  "getIcon node =
     (if ntype node = TBoolean then Some (''resources/light/boolean.svg'', ''resources/dark/boolean.svg'')
      else if ntype node = TString then Some (''resources/light/string.svg'', ''resources/dark/string.svg'')
      else if ntype node = TNumber then Some (''resources/light/number.svg'', ''resources/dark/number.svg'')
      else None)"

record TreeItem =
  label :: string
  collapsibleState :: TreeItemCollapsibleState
  commandRange :: "int \<times> int"
  iconPath :: "(string \<times> string) option"
  contextValue :: TreeNodeType

definition getTreeItem :: "int \<Rightarrow> JsonTreeProvider \<Rightarrow> error + TreeItem" where
  "getTreeItem off p =
     (case tree p of
        None \<Rightarrow> Inl InvalidTree
      | Some _ \<Rightarrow>
          (case editor p of
             None \<Rightarrow> Inl InvalidEditor
           | Some ed \<Rightarrow>
               (case nodeMap (nodes p) off of
                  None \<Rightarrow> Inl (NodeNotFound off)
                | Some a \<Rightarrow>
                    (let valueNode = heap (nodes p) ! a
                     in (case getLabel p a of
                           Inl e \<Rightarrow> Inl e
                         | Inr l \<Rightarrow>
                             Inr \<lparr>label = l,
                                  collapsibleState =
                                    (if ntype valueNode = TObject then Expanded
                                     else if ntype valueNode = TArray then Collapsed
                                     else NoChildren),
                                  commandRange = (offset valueNode, offset valueNode + nlength valueNode),
                                  iconPath = getIcon valueNode,
                                  contextValue = ntype valueNode\<rparr>)))))"

subsection \<open>Renaming a key\<close>

definition formatYamlKey :: "JsonTreeProvider \<Rightarrow> string \<Rightarrow> TreeNode \<Rightarrow> string" where
  "formatYamlKey p v node =
     (case (keyOffset node, keyLength node) of
        (Some ko, Some kl) \<Rightarrow>
          (let existing = slice (ptext p) ko (ko + kl); trimmed = trim existing
           in if startsWith trimmed (CHR 0x22) \<or> startsWith trimmed (CHR 0x27) then
                hd trimmed # v @ [hd trimmed]
              else v)
      | _ \<Rightarrow> v)"

text \<open>
  The callback of the input box in \<^verbatim>\<open>rename(offset)\<close>: \<open>v\<close> is what the box resolved to
  (\<open>None\<close> when it was dismissed). The result is the replacement handed to
  \<^verbatim>\<open>editor.edit\<close>, or \<open>None\<close> when the callback returns without an edit.
\<close>

definition renameEdit :: "int \<Rightarrow> string option \<Rightarrow> JsonTreeProvider \<Rightarrow> TextEdit option" where
  "renameEdit off v p =
     (case (v, editor p, tree p, nodeMap (nodes p) off) of
        (Some val, Some ed, Some _, Some a) \<Rightarrow>
          (let targetNode = heap (nodes p) ! a
           in if (case parent targetNode of
                    None \<Rightarrow> False
                  | Some q \<Rightarrow> ntype (heap (nodes p) ! q) = TArray)
                 \<or> keyOffset targetNode = None \<or> keyLength targetNode = None
              then None
              else
                (case (keyOffset targetNode, keyLength targetNode) of
                   (Some ko, Some kl) \<Rightarrow>
                     Some \<lparr>editStart = ko, editEnd = ko + kl,
                           newText = (if isYamlLanguage p then formatYamlKey p val targetNode
                                      else JSON_stringify val)\<rparr>
                 | _ \<Rightarrow> None))
      | _ \<Rightarrow> None)"

text \<open>
  \<^verbatim>\<open>rename(offset)\<close> up to the edit: the document of the editor after it. The parse that
  the source schedules after the edit is \<open>parseTree\<close>, run later by a timer.
\<close>

definition rename :: "int \<Rightarrow> string option \<Rightarrow> JsonTreeProvider \<Rightarrow> JsonTreeProvider" where
  "rename off v p =
     (case renameEdit off v p of
        None \<Rightarrow> p
      | Some e \<Rightarrow> p\<lparr>editor := map_option (applyEdit e) (editor p)\<rparr>)"

subsection \<open>Well-formed stores and reachability\<close>

definition containerType :: "TreeNodeType \<Rightarrow> bool" where
  "containerType t = (t = TObject \<or> t = TArray)"

text \<open>
  What the builders keep true of the store: an entry of the index is the address of the
  object built last at that offset; every object has an entry at its offset; every object
  has a \<^verbatim>\<open>children\<close> array, of addresses in the store, which is empty unless the object is
  an object or array node.
\<close>

definition wfStore :: "store \<Rightarrow> bool" where
  "wfStore s =
     ((\<forall>i a. nodeMap s i = Some a \<longrightarrow>
          a < length (heap s) \<and> offset (heap s ! a) = i \<and>
          (\<forall>b. b < length (heap s) \<and> offset (heap s ! b) = i \<longrightarrow> b \<le> a)) \<and>
      (\<forall>a. a < length (heap s) \<longrightarrow>
          nodeMap s (offset (heap s ! a)) \<noteq> None \<and>
          (\<exists>cs. children (heap s ! a) = Some cs \<and> (\<forall>c. c \<in> set cs \<longrightarrow> c < length (heap s)) \<and>
                (cs \<noteq> [] \<longrightarrow> containerType (ntype (heap s ! a))))))"

text \<open>The later store keeps the objects of the earlier one, with their offsets and types.\<close>

definition extends :: "store \<Rightarrow> store \<Rightarrow> bool" where
  "extends s s' =
     (length (heap s) \<le> length (heap s') \<and>
      (\<forall>a. a < length (heap s) \<longrightarrow>
          offset (heap s' ! a) = offset (heap s ! a) \<and> ntype (heap s' ! a) = ntype (heap s ! a)))"

text \<open>The objects reachable from a root along \<^verbatim>\<open>children\<close>.\<close>

inductive reach :: "TreeNode list \<Rightarrow> addr \<Rightarrow> addr \<Rightarrow> bool" for h :: "TreeNode list" and r :: addr where
  reach_root: "reach h r r"
| reach_child: "reach h r a \<Longrightarrow> children (h ! a) = Some cs \<Longrightarrow> c \<in> set cs \<Longrightarrow> reach h r c"

text \<open>
  The later store keeps the objects of the earlier one and only appends to their
  \<^verbatim>\<open>children\<close>; and every object allocated between two stores is reachable from \<open>c\<close> in the
  later one.
\<close>

definition grows :: "store \<Rightarrow> store \<Rightarrow> bool" where
  "grows s t =
     (length (heap s) \<le> length (heap t) \<and>
      (\<forall>a cs. a < length (heap s) \<and> children (heap s ! a) = Some cs \<longrightarrow>
          (\<exists>cs'. children (heap t ! a) = Some (cs @ cs'))))"

definition covers :: "store \<Rightarrow> store \<Rightarrow> addr \<Rightarrow> bool" where
  "covers s t c = (\<forall>a. length (heap s) \<le> a \<and> a < length (heap t) \<longrightarrow> reach (heap t) c a)"

subsection \<open>Sample documents\<close>

text \<open>
  A provider as its field initialisers leave it, parsers that answer with a given parse of
  the text at hand, and the parses of a few small documents.
\<close>

definition initialProvider :: JsonTreeProvider where
  "initialProvider = \<lparr>tree = None, ptext = [], editor = None, languageId = None, nodes = emptyStore\<rparr>"

definition fixedParsers :: "json_node option \<Rightarrow> yaml_result \<Rightarrow> parsers" where
  "fixedParsers j y = \<lparr>jsonParse = (\<lambda>_. j), yamlParse = (\<lambda>_. y)\<rparr>"

definition openDocument :: "string \<Rightarrow> string \<Rightarrow> TextEditor" where
  "openDocument lang t = \<lparr>docText = t, docLanguageId = lang\<rparr>"

text \<open>The JSON text \<^verbatim>\<open>[1]\<close>.\<close>

definition jsonArrayDoc :: json_node where
  "jsonArrayDoc = JNode ''array'' None 0 3 (Some [JNode ''number'' (Some (JNumber ''1'')) 1 1 None])"

text \<open>The JSON text \<^verbatim>\<open>{"a":1}\<close>.\<close>

definition jsonObjectText :: string where
  "jsonObjectText = [CHR ''{'', CHR 0x22, CHR ''a'', CHR 0x22, CHR '':'', CHR ''1'', CHR ''}'']"

definition jsonObjectDoc :: json_node where
  "jsonObjectDoc =
     JNode ''object'' None 0 7
       (Some [JNode ''property'' None 1 5
                (Some [JNode ''string'' (Some (JString ''a'')) 1 3 None,
                       JNode ''number'' (Some (JNumber ''1'')) 5 1 None])])"

text \<open>
  What the YAML library returns. Every range is an array \<^verbatim>\<open>[start, valueEnd, nodeEnd]\<close>; a
  scalar has its value both in \<^verbatim>\<open>value\<close> and from \<^verbatim>\<open>toJSON()\<close>, a mapping or a sequence has no
  \<^verbatim>\<open>value\<close> and an object or array from \<^verbatim>\<open>toJSON()\<close>; a pair has no range of its own. The
  texts of \<^verbatim>\<open>toString()\<close> are left empty: every node here has a \<^verbatim>\<open>toJSON\<close>, so the builder
  does not read them.
\<close>

definition yamlScalar :: "int \<Rightarrow> int \<Rightarrow> int \<Rightarrow> jsval \<Rightarrow> yaml_node" where
  "yamlScalar a b c v =
     YScalar (YInfo (Some (RangeArray [Some a, Some b, Some c])) (Some v) (Some v) [])"

definition yamlMap :: "int \<Rightarrow> int \<Rightarrow> int \<Rightarrow> ypair list \<Rightarrow> yaml_node" where
  "yamlMap a b c pairs =
     YMap (YInfo (Some (RangeArray [Some a, Some b, Some c])) None
             (Some (JObject ''[object Object]'')) []) pairs"

definition yamlSeq :: "int \<Rightarrow> int \<Rightarrow> int \<Rightarrow> yaml_node option list \<Rightarrow> yaml_node" where
  "yamlSeq a b c items =
     YSeq (YInfo (Some (RangeArray [Some a, Some b, Some c])) None
             (Some (JObject ''[object Object]'')) []) items"

text \<open>
  The YAML text of three lines \<^verbatim>\<open>a:\<close>, \<^verbatim>\<open>  b: 2\<close>, \<^verbatim>\<open>  c:\<close>, each ended by a line feed. The key
  \<^verbatim>\<open>c\<close> is at offsets 12 to 13 and nothing follows its colon: the library gives the pair an
  empty scalar as value, of value \<^verbatim>\<open>null\<close> and at offset 14, and ends both mappings there.
\<close>

definition yamlNestedText :: string where
  "yamlNestedText = ''a:'' @ [CHR 0x0A] @ ''  b: 2'' @ [CHR 0x0A] @ ''  c:'' @ [CHR 0x0A]"

definition yamlColonPair :: ypair where
  "yamlColonPair = YPair (Some (yamlScalar 12 13 13 (JString ''c''))) (Some (yamlScalar 14 14 14 JNull)) None"

definition yamlNestedDoc :: yaml_node where
  "yamlNestedDoc =
     yamlMap 0 14 14
       [YPair (Some (yamlScalar 0 1 1 (JString ''a'')))
          (Some (yamlMap 5 14 14
             [YPair (Some (yamlScalar 5 6 6 (JString ''b''))) (Some (yamlScalar 8 9 10 (JNumber ''2''))) None,
              yamlColonPair]))
          None]"

text \<open>
  The YAML text \<^verbatim>\<open>{a}\<close>: in a flow mapping a key that no colon follows makes a pair whose value
  is \<^verbatim>\<open>null\<close>.
\<close>

definition yamlBarePair :: ypair where
  "yamlBarePair = YPair (Some (yamlScalar 1 2 2 (JString ''a''))) None None"

definition yamlFlowMapDoc :: yaml_node where
  "yamlFlowMapDoc = yamlMap 0 3 3 [yamlBarePair]"

text \<open>
  The YAML text \<^verbatim>\<open>[?]\<close>: the item of the flow sequence is a mapping of one pair, whose key is
  an empty scalar after the question mark and whose value is \<^verbatim>\<open>null\<close>; the mapping has the
  range of its key.
\<close>

definition yamlFlowSeqDoc :: yaml_node where
  "yamlFlowSeqDoc =
     yamlSeq 0 3 3 [Some (yamlMap 2 2 2 [YPair (Some (yamlScalar 2 2 2 JNull)) None None])]"

text \<open>The YAML text \<^verbatim>\<open>"old": 1\<close>, and the text \<^verbatim>\<open>old: 1\<close>.\<close>

definition yamlQuotedText :: string where
  "yamlQuotedText = [CHR 0x22] @ ''old'' @ [CHR 0x22] @ '': 1''"

definition yamlQuotedDoc :: yaml_node where
  "yamlQuotedDoc =
     yamlMap 0 8 8
       [YPair (Some (yamlScalar 0 5 5 (JString ''old''))) (Some (yamlScalar 7 8 8 (JNumber ''1''))) None]"

definition yamlPlainDoc :: yaml_node where
  "yamlPlainDoc =
     yamlMap 0 6 6
       [YPair (Some (yamlScalar 0 3 3 (JString ''old''))) (Some (yamlScalar 5 6 6 (JNumber ''1''))) None]"

text \<open>A store that holds one mapping node of the YAML builder and nothing else.\<close>

definition yamlMappingStore :: "int \<Rightarrow> int \<Rightarrow> store" where
  "yamlMappingStore off len =
     snd (newNode \<lparr>offset = off, nlength = len, ntype = TObject,
                   nvalue = Some (JObject ''[object Object]''), parent = None,
                   children = Some [], key = None, keyOffset = None, keyLength = None\<rparr> emptyStore)"

section \<open>The store under the builders\<close>

subsection \<open>The three writes\<close>

lemma extends_refl: "extends s s"
  by (simp add: extends_def)

lemma extends_trans: "extends s t \<Longrightarrow> extends t u \<Longrightarrow> extends s u"
  by (auto simp: extends_def)

lemma extends_length: "extends s t \<Longrightarrow> a < length (heap s) \<Longrightarrow> a < length (heap t)"
  by (auto simp: extends_def)

lemma extends_ntype: "extends s t \<Longrightarrow> a < length (heap s) \<Longrightarrow> ntype (heap t ! a) = ntype (heap s ! a)"
  by (auto simp: extends_def)

lemma extends_offset: "extends s t \<Longrightarrow> a < length (heap s) \<Longrightarrow> offset (heap t ! a) = offset (heap s ! a)"
  by (auto simp: extends_def)

lemma newNode_extends: "newNode n s = (a, t) \<Longrightarrow> extends s t"
  by (auto simp: newNode_def extends_def nth_append)

lemma newNode_addr:
  "newNode n s = (a, t) \<Longrightarrow> a = length (heap s) \<and> length (heap t) = Suc (length (heap s)) \<and> heap t ! a = n"
  by (auto simp: newNode_def)

lemma newNode_wf:
  assumes "wfStore s" and "children n = Some []" and "newNode n s = (a, t)"
  shows "wfStore t"
proof -
  have t: "heap t = heap s @ [n]" "nodeMap t = (nodeMap s)(offset n := Some (length (heap s)))"
    using assms(3) by (auto simp: newNode_def)
  show ?thesis
    using assms(1,2) unfolding wfStore_def t
    by (auto simp: nth_append less_Suc_eq split: if_splits)
qed

lemma nth_update_field:
  "g (f (h ! c)) = g (h ! c) \<Longrightarrow> g (h[c := f (h ! c)] ! a) = g (h ! a)"
  by (cases "c < length h"; cases "a = c") (auto simp: list_update_beyond)

lemma pushChild_offset [simp]: "offset (heap (pushChild cur c s) ! a) = offset (heap s ! a)"
  unfolding pushChild_def by (simp add: nth_update_field [where g = offset])

lemma pushChild_ntype [simp]: "ntype (heap (pushChild cur c s) ! a) = ntype (heap s ! a)"
  unfolding pushChild_def by (simp add: nth_update_field [where g = ntype])

lemma pushChild_length [simp]: "length (heap (pushChild cur c s)) = length (heap s)"
  by (simp add: pushChild_def)

lemma pushChild_nodeMap [simp]: "nodeMap (pushChild cur c s) = nodeMap s"
  by (simp add: pushChild_def)

lemma pushChild_children:
  "a < length (heap s) \<Longrightarrow>
   children (heap (pushChild cur c s) ! a) =
     (if a = cur then map_option (\<lambda>cs. cs @ [c]) (children (heap s ! a)) else children (heap s ! a))"
  by (simp add: pushChild_def nth_list_update)

lemma pushChild_extends: "extends s (pushChild cur c s)"
  by (simp add: extends_def)

lemma pushChild_wf:
  assumes "wfStore s" and "cur < length (heap s)" and "c < length (heap s)"
    and "containerType (ntype (heap s ! cur))"
  shows "wfStore (pushChild cur c s)"
  using assms unfolding wfStore_def
  by (auto simp: pushChild_children)

lemma setKeySpan_offset [simp]: "offset (heap (setKeySpan c ko kl s) ! a) = offset (heap s ! a)"
  unfolding setKeySpan_def
  by (simp add: nth_update_field [where g = offset and f = "\<lambda>n. n\<lparr>keyOffset := ko, keyLength := kl\<rparr>"])

lemma setKeySpan_ntype [simp]: "ntype (heap (setKeySpan c ko kl s) ! a) = ntype (heap s ! a)"
  unfolding setKeySpan_def
  by (simp add: nth_update_field [where g = ntype and f = "\<lambda>n. n\<lparr>keyOffset := ko, keyLength := kl\<rparr>"])

lemma setKeySpan_children [simp]: "children (heap (setKeySpan c ko kl s) ! a) = children (heap s ! a)"
  unfolding setKeySpan_def
  by (simp add: nth_update_field [where g = children and f = "\<lambda>n. n\<lparr>keyOffset := ko, keyLength := kl\<rparr>"])

lemma setKeySpan_length [simp]: "length (heap (setKeySpan c ko kl s)) = length (heap s)"
  by (simp add: setKeySpan_def)

lemma setKeySpan_nodeMap [simp]: "nodeMap (setKeySpan c ko kl s) = nodeMap s"
  by (simp add: setKeySpan_def)

lemma setKeySpan_extends: "extends s (setKeySpan c ko kl s)"
  by (simp add: extends_def)

lemma setKeySpan_wf: "wfStore s \<Longrightarrow> wfStore (setKeySpan c ko kl s)"
  unfolding wfStore_def by simp

subsection \<open>Both builders keep the store well formed\<close>

lemma newNode_fresh_wf:
  assumes "wfStore s" and "children n = Some []" and "newNode n s = (a, t)"
  shows "wfStore t \<and> extends s t \<and> a < length (heap t) \<and> ntype (heap t ! a) = ntype n"
  using newNode_wf [OF assms] newNode_extends [OF assms(3)] newNode_addr [OF assms(3)]
  by auto

lemma builder_json:
  "wfStore s \<Longrightarrow> buildJsonTree n par k s = (r, t) \<Longrightarrow>
     wfStore t \<and> extends s t \<and> (\<forall>c. r = Some c \<longrightarrow> c < length (heap t))"
  "wfStore s \<Longrightarrow> cur < length (heap s) \<Longrightarrow> containerType (ntype (heap s ! cur)) \<Longrightarrow>
     wfStore (buildJsonObject cs cur s) \<and> extends s (buildJsonObject cs cur s)"
  "wfStore s \<Longrightarrow> cur < length (heap s) \<Longrightarrow> containerType (ntype (heap s ! cur)) \<Longrightarrow>
     wfStore (buildJsonArray cs i cur s) \<and> extends s (buildJsonArray cs i cur s)"
proof (induction n par k s and cs cur s and cs i cur s arbitrary: r t and and
    rule: buildJsonTree_buildJsonObject_buildJsonArray.induct)
  case (1 ty v off len ch par k s)
  let ?isProp = "ty = ''property'' \<and> (case ch of None \<Rightarrow> False | Some cs \<Rightarrow> cs \<noteq> [])"
  show ?case
  proof (cases ?isProp)
    case True
    then obtain keyNode rest0 where ch: "ch = Some (keyNode # rest0)"
      by (auto split: option.splits simp: neq_Nil_conv)
    show ?thesis
    proof (cases rest0)
      case Nil
      with True ch "1.prems" show ?thesis
        by (auto simp: extends_refl)
    next
      case (Cons valueNode rest)
      obtain r' s' where b: "buildJsonTree valueNode par (jvalue keyNode) s = (r', s')"
        by force
      have ih: "wfStore s' \<and> extends s s' \<and> (\<forall>c. r' = Some c \<longrightarrow> c < length (heap s'))"
        using "1.IH"(1) [OF True ch refl Cons "1.prems"(1) b] .
      show ?thesis
      proof (cases r')
        case None
        with True ch Cons b "1.prems"(2) have "r = None" "t = s'" by auto
        with ih show ?thesis by simp
      next
        case (Some child)
        with True ch Cons b "1.prems"(2)
        have rt: "r = Some child" "t = setKeySpan child (Some (joffset keyNode)) (Some (jlength keyNode)) s'"
          by auto
        from ih Some show ?thesis unfolding rt
          by (auto intro: setKeySpan_wf extends_trans [OF _ setKeySpan_extends])
      qed
    qed
  next
    case False
    let ?n = "\<lparr>offset = off, nlength = len, ntype = normalizeNodeType ty, nvalue = v,
                parent = par, children = Some [], key = k, keyOffset = None, keyLength = None\<rparr>"
    obtain current s1 where nn: "newNode ?n s = (current, s1)"
      by force
    have fresh: "wfStore s1 \<and> extends s s1 \<and> current < length (heap s1) \<and> ntype (heap s1 ! current) = ntype ?n"
      using newNode_fresh_wf [OF "1.prems"(1) _ nn] by simp
    have r: "r = Some current"
      using False nn "1.prems"(2) by (auto split: option.splits if_splits)
    consider (obj) cs where "ch = Some cs" "ty = ''object''"
      | (arr) cs where "ch = Some cs" "ty \<noteq> ''object''" "ty = ''array''"
      | (leaf) "ch = None \<or> (ty \<noteq> ''object'' \<and> ty \<noteq> ''array'')"
      by (cases ch) auto
    then show ?thesis
    proof cases
      case obj
      then have t: "t = buildJsonObject cs current s1"
        using False nn "1.prems"(2) by auto
      have ct: "containerType (ntype (heap s1 ! current))"
        using fresh obj by (simp add: containerType_def normalizeNodeType_def)
      from "1.IH"(2) [OF False nn [symmetric] obj(1,2)] fresh ct
      have "wfStore t \<and> extends s1 t" unfolding t by blast
      with fresh r show ?thesis
        by (auto intro: extends_trans extends_length)
    next
      case arr
      then have t: "t = buildJsonArray cs 0 current s1"
        using False nn "1.prems"(2) by auto
      have ct: "containerType (ntype (heap s1 ! current))"
        using fresh arr by (simp add: containerType_def normalizeNodeType_def)
      from "1.IH"(3) [OF False nn [symmetric] arr(1,2,3)] fresh ct
      have "wfStore t \<and> extends s1 t" unfolding t by blast
      with fresh r show ?thesis
        by (auto intro: extends_trans extends_length)
    next
      case leaf
      then have "t = s1"
        using False nn "1.prems"(2) by (auto split: option.splits)
      with fresh r show ?thesis by simp
    qed
  qed
next
  case (2 current s)
  then show ?case by (simp add: extends_refl)
next
  case (3 c cs current s)
  obtain r' s' where b: "buildJsonTree c (Some current) None s = (r', s')"
    by force
  have ih: "wfStore s' \<and> extends s s' \<and> (\<forall>c. r' = Some c \<longrightarrow> c < length (heap s'))"
    using "3.IH"(1) [OF "3.prems"(1) b] .
  have cur: "current < length (heap s')" "containerType (ntype (heap s' ! current))"
    using ih "3.prems"(2,3) by (auto simp: extends_length extends_ntype)
  show ?case
  proof (cases r')
    case None
    from "3.IH"(2) [OF b [symmetric] None] ih cur
    have "wfStore (buildJsonObject cs current s') \<and> extends s' (buildJsonObject cs current s')"
      by blast
    with ih b None show ?thesis
      by (auto intro: extends_trans)
  next
    case (Some child)
    let ?s'' = "pushChild current child s'"
    have wf'': "wfStore ?s''" and ex'': "extends s' ?s''"
      using pushChild_wf [of s' current child] ih cur Some by (auto simp: pushChild_extends)
    from "3.IH"(3) [OF b [symmetric] Some] wf'' cur
    have "wfStore (buildJsonObject cs current ?s'') \<and> extends ?s'' (buildJsonObject cs current ?s'')"
      by simp
    with ih ex'' b Some show ?thesis
      by (auto intro: extends_trans)
  qed
next
  case (4 index current s)
  then show ?case by (simp add: extends_refl)
next
  case (5 c cs index current s)
  obtain r' s' where b: "buildJsonTree c (Some current) (Some (JNumber (indexToString (int index)))) s = (r', s')"
    by force
  have ih: "wfStore s' \<and> extends s s' \<and> (\<forall>c. r' = Some c \<longrightarrow> c < length (heap s'))"
    using "5.IH"(1) [OF "5.prems"(1) b] .
  have cur: "current < length (heap s')" "containerType (ntype (heap s' ! current))"
    using ih "5.prems"(2,3) by (auto simp: extends_length extends_ntype)
  show ?case
  proof (cases r')
    case None
    from "5.IH"(2) [OF b [symmetric] None] ih cur
    have "wfStore (buildJsonArray cs (Suc index) current s') \<and> extends s' (buildJsonArray cs (Suc index) current s')"
      by blast
    with ih b None show ?thesis
      by (auto intro: extends_trans)
  next
    case (Some child)
    let ?s'' = "pushChild current child s'"
    have wf'': "wfStore ?s''" and ex'': "extends s' ?s''"
      using pushChild_wf [of s' current child] ih cur Some by (auto simp: pushChild_extends)
    from "5.IH"(3) [OF b [symmetric] Some] wf'' cur
    have "wfStore (buildJsonArray cs (Suc index) current ?s'') \<and> extends ?s'' (buildJsonArray cs (Suc index) current ?s'')"
      by simp
    with ih ex'' b Some show ?thesis
      by (auto intro: extends_trans)
  qed
qed


lemma builder_yaml:
  "wfStore s \<Longrightarrow> buildYamlTree node par k s = (r, t) \<Longrightarrow>
     wfStore t \<and> extends s t \<and> (\<forall>c. r = Some c \<longrightarrow> c < length (heap t))"
  "wfStore s \<Longrightarrow> cur < length (heap s) \<Longrightarrow> containerType (ntype (heap s ! cur)) \<Longrightarrow>
     wfStore (buildYamlPair p cur s) \<and> extends s (buildYamlPair p cur s)"
  "wfStore s \<Longrightarrow> cur < length (heap s) \<Longrightarrow> containerType (ntype (heap s ! cur)) \<Longrightarrow>
     wfStore (buildYamlPairs ps cur s) \<and> extends s (buildYamlPairs ps cur s)"
  "wfStore s \<Longrightarrow> cur < length (heap s) \<Longrightarrow> containerType (ntype (heap s ! cur)) \<Longrightarrow>
     wfStore (buildYamlItems items i cur s) \<and> extends s (buildYamlItems items i cur s)"
proof (induction node par k s and p cur s and ps cur s and items i cur s
    arbitrary: r t and and and
    rule: buildYamlTree_buildYamlPair_buildYamlPairs_buildYamlItems.induct)
  case (1 node par k s)
  show ?case
  proof (cases "getYamlRange (yrange (yinfoOf node))")
    case None
    with "1.prems" show ?thesis
      by (simp add: buildYamlTree.simps extends_refl)
  next
    case (Some span)
    obtain start e where span: "span = (start, e)"
      by (cases span)
    let ?n = "\<lparr>offset = start, nlength = e - start, ntype = getYamlNodeType node,
                nvalue = Some (getYamlValue node), parent = par, children = Some [], key = k,
                keyOffset = None, keyLength = None\<rparr>"
    obtain current s1 where nn: "newNode ?n s = (current, s1)"
      by force
    have fresh: "wfStore s1 \<and> extends s s1 \<and> current < length (heap s1) \<and> ntype (heap s1 ! current) = ntype ?n"
      using newNode_fresh_wf [OF "1.prems"(1) _ nn] by simp
    have r: "r = Some current"
      using Some span nn "1.prems"(2) by (simp add: buildYamlTree.simps)
    show ?thesis
    proof (cases node)
      case (YMap inf pairs)
      then have t: "t = buildYamlPairs pairs current s1"
        using Some span nn "1.prems"(2) by (simp add: buildYamlTree.simps)
      have ct: "containerType (ntype (heap s1 ! current))"
        using fresh YMap by (simp add: containerType_def getYamlNodeType_def)
      from "1.IH"(1) [OF Some span [symmetric] nn [symmetric] YMap] fresh ct
      have "wfStore t \<and> extends s1 t" unfolding t by blast
      with fresh r show ?thesis
        by (auto intro: extends_trans extends_length)
    next
      case (YSeq inf items)
      then have t: "t = buildYamlItems items 0 current s1"
        using Some span nn "1.prems"(2) by (simp add: buildYamlTree.simps)
      have ct: "containerType (ntype (heap s1 ! current))"
        using fresh YSeq by (simp add: containerType_def getYamlNodeType_def)
      from "1.IH"(2) [OF Some span [symmetric] nn [symmetric] YSeq] fresh ct
      have "wfStore t \<and> extends s1 t" unfolding t by blast
      with fresh r show ?thesis
        by (auto intro: extends_trans extends_length)
    next
      case (YScalar inf)
      then have "t = s1"
        using Some span nn "1.prems"(2) by (simp add: buildYamlTree.simps)
      with fresh r show ?thesis by simp
    qed
  qed
next
  case (2 pk pv pr current s)
  let ?p = "YPair pk pv pr"
  show ?case
  proof (cases pv)
    case None
    let ?kr = "getYamlRange (keyOrPairRange ?p)"
    let ?n = "\<lparr>offset = (case ?kr of Some (ks, ke) \<Rightarrow> ke | None \<Rightarrow> offset (heap s ! current)),
                nlength = 0, ntype = TNull, nvalue = None, parent = Some current,
                children = Some [], key = getYamlPairKey ?p, keyOffset = map_option fst ?kr,
                keyLength = Some (case ?kr of Some (ks, ke) \<Rightarrow> ke - ks | None \<Rightarrow> 0)\<rparr>"
    obtain nullNode s1 where nn: "newNode ?n s = (nullNode, s1)"
      by force
    have fresh: "wfStore s1 \<and> extends s s1 \<and> nullNode < length (heap s1) \<and> ntype (heap s1 ! nullNode) = ntype ?n"
      using newNode_fresh_wf [OF "2.prems"(1) _ nn] by simp
    have res: "buildYamlPair ?p current s = pushChild current nullNode s1"
      using None nn by (simp add: Let_def)
    have cur: "current < length (heap s1)" "containerType (ntype (heap s1 ! current))"
      using fresh "2.prems"(2,3) by (auto simp: extends_length extends_ntype)
    show ?thesis unfolding res
      using pushChild_wf [of s1 current nullNode] fresh cur
      by (auto intro: extends_trans [OF _ pushChild_extends])
  next
    case (Some v)
    obtain r' s' where b: "buildYamlTree v (Some current) (getYamlPairKey ?p) s = (r', s')"
      by force
    have ih: "wfStore s' \<and> extends s s' \<and> (\<forall>c. r' = Some c \<longrightarrow> c < length (heap s'))"
      using "2.IH" [OF Some "2.prems"(1) b] .
    show ?thesis
    proof (cases r')
      case None
      with Some b ih show ?thesis by simp
    next
      case child: (Some childNode)
      let ?s'' = "(case getYamlRange (keyOrPairRange ?p) of
                     Some (ks, ke) \<Rightarrow> setKeySpan childNode (Some ks) (Some (ke - ks)) s'
                   | None \<Rightarrow> s')"
      have res: "buildYamlPair ?p current s = pushChild current childNode ?s''"
        using Some b child by simp
      have s'': "wfStore ?s'' \<and> extends s' ?s'' \<and> length (heap ?s'') = length (heap s')"
        using ih by (auto split: option.splits simp: setKeySpan_wf setKeySpan_extends extends_refl)
      have cur: "current < length (heap ?s'')" "containerType (ntype (heap ?s'' ! current))"
        "childNode < length (heap ?s'')"
        using ih s'' "2.prems"(2,3) child
        by (auto simp: extends_length extends_ntype split: option.splits)
      show ?thesis unfolding res
        using pushChild_wf [of ?s'' current childNode] s'' cur ih
        by (blast intro: extends_trans pushChild_extends)
    qed
  qed
next
  case (3 current s)
  then show ?case by (simp add: extends_refl)
next
  case (4 p ps current s)
  let ?s' = "buildYamlPair p current s"
  have ih: "wfStore ?s' \<and> extends s ?s'"
    using "4.IH"(1) [OF "4.prems"] .
  have cur: "current < length (heap ?s')" "containerType (ntype (heap ?s' ! current))"
    using ih "4.prems"(2,3) by (auto simp: extends_length extends_ntype)
  from "4.IH"(2) [OF _ cur] ih show ?case
    by (auto intro: extends_trans)
next
  case (5 index current s)
  then show ?case by (simp add: extends_refl)
next
  case (6 item items index current s)
  show ?case
  proof (cases item)
    case None
    with "6.IH"(1) [OF None "6.prems"] show ?thesis by simp
  next
    case (Some node)
    obtain r' s' where b: "buildYamlTree node (Some current) (Some (JNumber (indexToString (int index)))) s = (r', s')"
      by force
    have ih: "wfStore s' \<and> extends s s' \<and> (\<forall>c. r' = Some c \<longrightarrow> c < length (heap s'))"
      using "6.IH"(2) [OF Some "6.prems"(1) b] .
    have cur: "current < length (heap s')" "containerType (ntype (heap s' ! current))"
      using ih "6.prems"(2,3) by (auto simp: extends_length extends_ntype)
    show ?thesis
    proof (cases r')
      case None
      from "6.IH"(3) [OF Some b [symmetric] None] ih cur
      have "wfStore (buildYamlItems items (Suc index) current s') \<and>
            extends s' (buildYamlItems items (Suc index) current s')"
        by blast
      with ih b None Some show ?thesis
        by (auto intro: extends_trans)
    next
      case child: (Some builtChild)
      let ?s'' = "pushChild current builtChild s'"
      have wf'': "wfStore ?s''" and ex'': "extends s' ?s''"
        using pushChild_wf [of s' current builtChild] ih cur child by (auto simp: pushChild_extends)
      from "6.IH"(4) [OF Some b [symmetric] child] wf'' cur
      have "wfStore (buildYamlItems items (Suc index) current ?s'') \<and>
            extends ?s'' (buildYamlItems items (Suc index) current ?s'')"
        by simp
      with ih ex'' b child Some show ?thesis
        by (auto intro: extends_trans)
    qed
  qed
qed

subsection \<open>What a call of the JSON builder allocates\<close>

lemma json_result_allocated:
  "buildJsonTree n par k s = (r, t) \<Longrightarrow>
     length (heap s) \<le> length (heap t) \<and> (\<forall>c. r = Some c \<longrightarrow> c < length (heap t))"
  "length (heap s) \<le> length (heap (buildJsonObject cs cur s))"
  "length (heap s) \<le> length (heap (buildJsonArray cs i cur s))"
proof (induction n par k s and cs cur s and cs i cur s arbitrary: r t and and
    rule: buildJsonTree_buildJsonObject_buildJsonArray.induct)
  case (1 ty v off len ch par k s)
  let ?isProp = "ty = ''property'' \<and> (case ch of None \<Rightarrow> False | Some cs \<Rightarrow> cs \<noteq> [])"
  show ?case
  proof (cases ?isProp)
    case True
    then obtain keyNode rest0 where ch: "ch = Some (keyNode # rest0)"
      by (auto split: option.splits simp: neq_Nil_conv)
    show ?thesis
    proof (cases rest0)
      case Nil
      with True ch "1.prems" show ?thesis by auto
    next
      case (Cons valueNode rest)
      obtain r' s' where b: "buildJsonTree valueNode par (jvalue keyNode) s = (r', s')"
        by force
      from "1.IH"(1) [OF True ch refl Cons b] True ch Cons b "1.prems"
      show ?thesis by (auto split: option.splits)
    qed
  next
    case False
    let ?n = "\<lparr>offset = off, nlength = len, ntype = normalizeNodeType ty, nvalue = v,
                parent = par, children = Some [], key = k, keyOffset = None, keyLength = None\<rparr>"
    obtain current s1 where nn: "newNode ?n s = (current, s1)"
      by force
    then have s1: "current = length (heap s)" "length (heap s1) = Suc (length (heap s))"
      by (auto simp: newNode_def)
    have r: "r = Some current"
      using False nn "1.prems" by (auto split: option.splits if_splits)
    have "length (heap s1) \<le> length (heap t)"
    proof (cases ch)
      case None
      with False nn "1.prems" show ?thesis by auto
    next
      case (Some cs)
      show ?thesis
        using "1.IH"(2) [OF False nn [symmetric] Some] "1.IH"(3) [OF False nn [symmetric] Some]
          False nn "1.prems" Some
        by (auto split: if_splits)
    qed
    with r s1 show ?thesis by simp
  qed
next
  case (3 c cs current s)
  obtain r' s' where b: "buildJsonTree c (Some current) None s = (r', s')"
    by force
  from "3.IH"(1) [OF b] "3.IH"(2) [OF b [symmetric]] "3.IH"(3) [OF b [symmetric]] b
  show ?case
    by (cases r') (auto intro: order_trans)
next
  case (5 c cs index current s)
  obtain r' s' where b: "buildJsonTree c (Some current) (Some (JNumber (indexToString (int index)))) s = (r', s')"
    by force
  from "5.IH"(1) [OF b] "5.IH"(2) [OF b [symmetric]] "5.IH"(3) [OF b [symmetric]] b
  show ?case
    by (cases r') (auto intro: order_trans)
qed simp_all

subsection \<open>Reachability while the store grows\<close>

lemma wf_children:
  "wfStore s \<Longrightarrow> a < length (heap s) \<Longrightarrow>
   \<exists>cs. children (heap s ! a) = Some cs \<and> (\<forall>c \<in> set cs. c < length (heap s)) \<and>
        (cs \<noteq> [] \<longrightarrow> containerType (ntype (heap s ! a)))"
  unfolding wfStore_def by blast

lemma reach_valid:
  assumes "reach (heap s) r a" and "wfStore s" and "r < length (heap s)"
  shows "a < length (heap s)"
  using assms
proof (induction rule: reach.induct)
  case reach_root
  then show ?case by simp
next
  case (reach_child a cs c)
  then have "a < length (heap s)" by simp
  from wf_children [OF reach_child.prems(1) this] reach_child.hyps(2,3)
  show ?case by auto
qed

lemma reach_trans: "reach h c a \<Longrightarrow> reach h r c \<Longrightarrow> reach h r a"
  by (induction rule: reach.induct) (auto intro: reach.intros)

lemma grows_refl: "grows s s"
  by (simp add: grows_def)

lemma grows_length: "grows s t \<Longrightarrow> length (heap s) \<le> length (heap t)"
  by (simp add: grows_def)

lemma grows_trans:
  assumes "grows s t" and "grows t u"
  shows "grows s u"
  unfolding grows_def
proof (intro conjI allI impI)
  show "length (heap s) \<le> length (heap u)"
    using assms by (simp add: grows_def)
next
  fix a cs
  assume a: "a < length (heap s) \<and> children (heap s ! a) = Some cs"
  then obtain cs' where t: "children (heap t ! a) = Some (cs @ cs')"
    using assms(1) unfolding grows_def by blast
  have "a < length (heap t)"
    using a assms(1) by (simp add: grows_def)
  with t obtain cs'' where "children (heap u ! a) = Some ((cs @ cs') @ cs'')"
    using assms(2) unfolding grows_def by blast
  then show "\<exists>cs'. children (heap u ! a) = Some (cs @ cs')"
    by simp
qed

lemma newNode_grows: "newNode n s = (a, t) \<Longrightarrow> grows s t"
  by (auto simp: newNode_def grows_def nth_append)

lemma pushChild_grows: "grows s (pushChild cur c s)"
  by (auto simp: grows_def pushChild_children)

lemma setKeySpan_grows: "grows s (setKeySpan c ko kl s)"
  by (simp add: grows_def)

lemma reach_mono:
  assumes "reach (heap s) r a" and "wfStore s" and "r < length (heap s)" and "grows s t"
  shows "reach (heap t) r a"
  using assms
proof (induction rule: reach.induct)
  case reach_root
  show ?case by (rule reach.reach_root)
next
  case (reach_child a cs c)
  have a: "a < length (heap s)"
    using reach_valid [OF reach_child.hyps(1) reach_child.prems(1,2)] .
  then obtain cs' where "children (heap t ! a) = Some (cs @ cs')"
    using reach_child.hyps(2) reach_child.prems(3) unfolding grows_def by blast
  moreover have "c \<in> set (cs @ cs')"
    using reach_child.hyps(3) by simp
  moreover have "reach (heap t) r a"
    using reach_child.IH reach_child.prems by simp
  ultimately show ?case
    by (rule reach.reach_child [rotated])
qed

lemma covers_empty: "length (heap t) \<le> length (heap s) \<Longrightarrow> covers s t c"
  by (auto simp: covers_def)

lemma covers_newNode: "newNode n s = (a, t) \<Longrightarrow> covers s t a"
  by (auto simp: covers_def newNode_def less_Suc_eq intro: reach.reach_root)

lemma covers_chain:
  assumes "covers s t c" and "covers t u c" and "wfStore t" and "c < length (heap t)"
    and "grows t u"
  shows "covers s u c"
  unfolding covers_def
proof (intro allI impI)
  fix a
  assume a: "length (heap s) \<le> a \<and> a < length (heap u)"
  show "reach (heap u) c a"
  proof (cases "a < length (heap t)")
    case True
    with a assms(1) have "reach (heap t) c a"
      by (simp add: covers_def)
    then show ?thesis
      using assms(3,4,5) by (rule reach_mono)
  next
    case False
    with a assms(2) show ?thesis
      by (simp add: covers_def)
  qed
qed

lemma covers_setKeySpan:
  assumes "covers s t c" and "wfStore t" and "c < length (heap t)"
  shows "covers s (setKeySpan x ko kl t) c"
  using covers_chain [OF assms(1) covers_empty assms(2,3) setKeySpan_grows]
  by simp

lemma covers_pushChild:
  assumes "covers s t child" and "wfStore t" and "cur < length (heap t)"
    and "child < length (heap t)"
  shows "covers s (pushChild cur child t) cur"
  unfolding covers_def
proof (intro allI impI)
  fix a
  let ?u = "pushChild cur child t"
  assume "length (heap s) \<le> a \<and> a < length (heap ?u)"
  then have "reach (heap t) child a"
    using assms(1) by (simp add: covers_def)
  then have "reach (heap ?u) child a"
    using assms(2,4) pushChild_grows by (rule reach_mono)
  moreover have "reach (heap ?u) cur child"
  proof -
    obtain cs where "children (heap t ! cur) = Some cs"
      using wf_children [OF assms(2,3)] by blast
    then have "children (heap ?u ! cur) = Some (cs @ [child])"
      using assms(3) by (simp add: pushChild_children)
    then show ?thesis
      by (rule reach.reach_child [OF reach.reach_root]) simp
  qed
  ultimately show "reach (heap ?u) cur a"
    by (rule reach_trans)
qed


subsection \<open>Every object a builder allocates is reachable from what it returns\<close>

lemma cover_json:
  "wfStore s \<Longrightarrow> buildJsonTree n par k s = (r, t) \<Longrightarrow>
     grows s t \<and> (case r of None \<Rightarrow> t = s | Some c \<Rightarrow> covers s t c)"
  "wfStore s \<Longrightarrow> cur < length (heap s) \<Longrightarrow> containerType (ntype (heap s ! cur)) \<Longrightarrow>
     grows s (buildJsonObject cs cur s) \<and> covers s (buildJsonObject cs cur s) cur"
  "wfStore s \<Longrightarrow> cur < length (heap s) \<Longrightarrow> containerType (ntype (heap s ! cur)) \<Longrightarrow>
     grows s (buildJsonArray cs i cur s) \<and> covers s (buildJsonArray cs i cur s) cur"
proof (induction n par k s and cs cur s and cs i cur s arbitrary: r t and and
    rule: buildJsonTree_buildJsonObject_buildJsonArray.induct)
  case (1 ty v off len ch par k s)
  let ?isProp = "ty = ''property'' \<and> (case ch of None \<Rightarrow> False | Some cs \<Rightarrow> cs \<noteq> [])"
  show ?case
  proof (cases ?isProp)
    case True
    then obtain keyNode rest0 where ch: "ch = Some (keyNode # rest0)"
      by (auto split: option.splits simp: neq_Nil_conv)
    show ?thesis
    proof (cases rest0)
      case Nil
      with True ch "1.prems" show ?thesis
        by (auto simp: grows_refl)
    next
      case (Cons valueNode rest)
      obtain r' s' where b: "buildJsonTree valueNode par (jvalue keyNode) s = (r', s')"
        by force
      have ih: "grows s s' \<and> (case r' of None \<Rightarrow> s' = s | Some c \<Rightarrow> covers s s' c)"
        using "1.IH"(1) [OF True ch refl Cons "1.prems"(1) b] .
      have wf': "wfStore s' \<and> (\<forall>c. r' = Some c \<longrightarrow> c < length (heap s'))"
        using builder_json(1) [OF "1.prems"(1) b] by simp
      show ?thesis
      proof (cases r')
        case None
        with True ch Cons b "1.prems"(2) have "r = None" "t = s'" by auto
        with ih None show ?thesis by auto
      next
        case (Some child)
        with True ch Cons b "1.prems"(2)
        have rt: "r = Some child" "t = setKeySpan child (Some (joffset keyNode)) (Some (jlength keyNode)) s'"
          by auto
        from ih wf' Some show ?thesis unfolding rt
          by (auto intro: grows_trans [OF _ setKeySpan_grows] covers_setKeySpan)
      qed
    qed
  next
    case False
    let ?n = "\<lparr>offset = off, nlength = len, ntype = normalizeNodeType ty, nvalue = v,
                parent = par, children = Some [], key = k, keyOffset = None, keyLength = None\<rparr>"
    obtain current s1 where nn: "newNode ?n s = (current, s1)"
      by force
    have fresh: "wfStore s1 \<and> extends s s1 \<and> current < length (heap s1) \<and> ntype (heap s1 ! current) = ntype ?n"
      using newNode_fresh_wf [OF "1.prems"(1) _ nn] by simp
    have first: "grows s s1" "covers s s1 current"
      using newNode_grows [OF nn] covers_newNode [OF nn] .
    have r: "r = Some current"
      using False nn "1.prems"(2) by (auto split: option.splits if_splits)
    consider (obj) cs where "ch = Some cs" "ty = ''object''"
      | (arr) cs where "ch = Some cs" "ty \<noteq> ''object''" "ty = ''array''"
      | (leaf) "ch = None \<or> (ty \<noteq> ''object'' \<and> ty \<noteq> ''array'')"
      by (cases ch) auto
    then show ?thesis
    proof cases
      case obj
      then have t: "t = buildJsonObject cs current s1"
        using False nn "1.prems"(2) by auto
      have ct: "containerType (ntype (heap s1 ! current))"
        using fresh obj by (simp add: containerType_def normalizeNodeType_def)
      from "1.IH"(2) [OF False nn [symmetric] obj(1,2)] fresh ct
      have "grows s1 t \<and> covers s1 t current" unfolding t by blast
      with fresh first r show ?thesis
        by (auto intro: grows_trans covers_chain)
    next
      case arr
      then have t: "t = buildJsonArray cs 0 current s1"
        using False nn "1.prems"(2) by auto
      have ct: "containerType (ntype (heap s1 ! current))"
        using fresh arr by (simp add: containerType_def normalizeNodeType_def)
      from "1.IH"(3) [OF False nn [symmetric] arr(1,2,3)] fresh ct
      have "grows s1 t \<and> covers s1 t current" unfolding t by blast
      with fresh first r show ?thesis
        by (auto intro: grows_trans covers_chain)
    next
      case leaf
      then have "t = s1"
        using False nn "1.prems"(2) by (auto split: option.splits)
      with first r show ?thesis by simp
    qed
  qed
next
  case (2 current s)
  then show ?case by (simp add: grows_refl covers_empty)
next
  case (3 c cs current s)
  obtain r' s' where b: "buildJsonTree c (Some current) None s = (r', s')"
    by force
  have ih: "grows s s' \<and> (case r' of None \<Rightarrow> s' = s | Some c \<Rightarrow> covers s s' c)"
    using "3.IH"(1) [OF "3.prems"(1) b] .
  have wf': "wfStore s' \<and> extends s s' \<and> (\<forall>c. r' = Some c \<longrightarrow> c < length (heap s'))"
    using builder_json(1) [OF "3.prems"(1) b] .
  have cur: "current < length (heap s')" "containerType (ntype (heap s' ! current))"
    using wf' "3.prems"(2,3) by (auto simp: extends_length extends_ntype)
  show ?case
  proof (cases r')
    case None
    from "3.IH"(2) [OF b [symmetric] None] wf' cur ih b None show ?thesis
      by simp
  next
    case (Some child)
    let ?s'' = "pushChild current child s'"
    have wf'': "wfStore ?s''"
      using pushChild_wf [of s' current child] wf' cur Some by simp
    have c'': "covers s ?s'' current"
      using covers_pushChild [of s s' child current] ih wf' cur Some by simp
    from "3.IH"(3) [OF b [symmetric] Some] wf'' cur
    have "grows ?s'' (buildJsonObject cs current ?s'') \<and> covers ?s'' (buildJsonObject cs current ?s'') current"
      by simp
    with ih c'' wf'' cur b Some show ?thesis
      by (auto intro: grows_trans [OF _ grows_trans [OF pushChild_grows]] covers_chain)
  qed
next
  case (4 index current s)
  then show ?case by (simp add: grows_refl covers_empty)
next
  case (5 c cs index current s)
  obtain r' s' where b: "buildJsonTree c (Some current) (Some (JNumber (indexToString (int index)))) s = (r', s')"
    by force
  have ih: "grows s s' \<and> (case r' of None \<Rightarrow> s' = s | Some c \<Rightarrow> covers s s' c)"
    using "5.IH"(1) [OF "5.prems"(1) b] .
  have wf': "wfStore s' \<and> extends s s' \<and> (\<forall>c. r' = Some c \<longrightarrow> c < length (heap s'))"
    using builder_json(1) [OF "5.prems"(1) b] .
  have cur: "current < length (heap s')" "containerType (ntype (heap s' ! current))"
    using wf' "5.prems"(2,3) by (auto simp: extends_length extends_ntype)
  show ?case
  proof (cases r')
    case None
    from "5.IH"(2) [OF b [symmetric] None] wf' cur ih b None show ?thesis
      by simp
  next
    case (Some child)
    let ?s'' = "pushChild current child s'"
    have wf'': "wfStore ?s''"
      using pushChild_wf [of s' current child] wf' cur Some by simp
    have c'': "covers s ?s'' current"
      using covers_pushChild [of s s' child current] ih wf' cur Some by simp
    from "5.IH"(3) [OF b [symmetric] Some] wf'' cur
    have "grows ?s'' (buildJsonArray cs (Suc index) current ?s'') \<and>
          covers ?s'' (buildJsonArray cs (Suc index) current ?s'') current"
      by simp
    with ih c'' wf'' cur b Some show ?thesis
      by (auto intro: grows_trans [OF _ grows_trans [OF pushChild_grows]] covers_chain)
  qed
qed


lemma cover_yaml:
  "wfStore s \<Longrightarrow> buildYamlTree node par k s = (r, t) \<Longrightarrow>
     grows s t \<and> (case r of None \<Rightarrow> t = s | Some c \<Rightarrow> covers s t c)"
  "wfStore s \<Longrightarrow> cur < length (heap s) \<Longrightarrow> containerType (ntype (heap s ! cur)) \<Longrightarrow>
     grows s (buildYamlPair p cur s) \<and> covers s (buildYamlPair p cur s) cur"
  "wfStore s \<Longrightarrow> cur < length (heap s) \<Longrightarrow> containerType (ntype (heap s ! cur)) \<Longrightarrow>
     grows s (buildYamlPairs ps cur s) \<and> covers s (buildYamlPairs ps cur s) cur"
  "wfStore s \<Longrightarrow> cur < length (heap s) \<Longrightarrow> containerType (ntype (heap s ! cur)) \<Longrightarrow>
     grows s (buildYamlItems items i cur s) \<and> covers s (buildYamlItems items i cur s) cur"
proof (induction node par k s and p cur s and ps cur s and items i cur s
    arbitrary: r t and and and
    rule: buildYamlTree_buildYamlPair_buildYamlPairs_buildYamlItems.induct)
  case (1 node par k s)
  show ?case
  proof (cases "getYamlRange (yrange (yinfoOf node))")
    case None
    with "1.prems" show ?thesis
      by (auto simp: buildYamlTree.simps grows_refl)
  next
    case (Some span)
    obtain start e where span: "span = (start, e)"
      by (cases span)
    let ?n = "\<lparr>offset = start, nlength = e - start, ntype = getYamlNodeType node,
                nvalue = Some (getYamlValue node), parent = par, children = Some [], key = k,
                keyOffset = None, keyLength = None\<rparr>"
    obtain current s1 where nn: "newNode ?n s = (current, s1)"
      by force
    have fresh: "wfStore s1 \<and> extends s s1 \<and> current < length (heap s1) \<and> ntype (heap s1 ! current) = ntype ?n"
      using newNode_fresh_wf [OF "1.prems"(1) _ nn] by simp
    have first: "grows s s1" "covers s s1 current"
      using newNode_grows [OF nn] covers_newNode [OF nn] .
    have r: "r = Some current"
      using Some span nn "1.prems"(2) by (simp add: buildYamlTree.simps)
    show ?thesis
    proof (cases node)
      case (YMap inf pairs)
      then have t: "t = buildYamlPairs pairs current s1"
        using Some span nn "1.prems"(2) by (simp add: buildYamlTree.simps)
      have ct: "containerType (ntype (heap s1 ! current))"
        using fresh YMap by (simp add: containerType_def getYamlNodeType_def)
      from "1.IH"(1) [OF Some span [symmetric] nn [symmetric] YMap] fresh ct
      have "grows s1 t \<and> covers s1 t current" unfolding t by blast
      with fresh first r show ?thesis
        by (auto intro: grows_trans covers_chain)
    next
      case (YSeq inf items)
      then have t: "t = buildYamlItems items 0 current s1"
        using Some span nn "1.prems"(2) by (simp add: buildYamlTree.simps)
      have ct: "containerType (ntype (heap s1 ! current))"
        using fresh YSeq by (simp add: containerType_def getYamlNodeType_def)
      from "1.IH"(2) [OF Some span [symmetric] nn [symmetric] YSeq] fresh ct
      have "grows s1 t \<and> covers s1 t current" unfolding t by blast
      with fresh first r show ?thesis
        by (auto intro: grows_trans covers_chain)
    next
      case (YScalar inf)
      then have "t = s1"
        using Some span nn "1.prems"(2) by (simp add: buildYamlTree.simps)
      with first r show ?thesis by simp
    qed
  qed
next
  case (2 pk pv pr current s)
  let ?p = "YPair pk pv pr"
  show ?case
  proof (cases pv)
    case None
    let ?kr = "getYamlRange (keyOrPairRange ?p)"
    let ?n = "\<lparr>offset = (case ?kr of Some (ks, ke) \<Rightarrow> ke | None \<Rightarrow> offset (heap s ! current)),
                nlength = 0, ntype = TNull, nvalue = None, parent = Some current,
                children = Some [], key = getYamlPairKey ?p, keyOffset = map_option fst ?kr,
                keyLength = Some (case ?kr of Some (ks, ke) \<Rightarrow> ke - ks | None \<Rightarrow> 0)\<rparr>"
    obtain nullNode s1 where nn: "newNode ?n s = (nullNode, s1)"
      by force
    have fresh: "wfStore s1 \<and> extends s s1 \<and> nullNode < length (heap s1) \<and> ntype (heap s1 ! nullNode) = ntype ?n"
      using newNode_fresh_wf [OF "2.prems"(1) _ nn] by simp
    have first: "grows s s1" "covers s s1 nullNode"
      using newNode_grows [OF nn] covers_newNode [OF nn] .
    have res: "buildYamlPair ?p current s = pushChild current nullNode s1"
      using None nn by (simp add: Let_def)
    have cur: "current < length (heap s1)"
      using fresh "2.prems"(2) by (auto simp: extends_length)
    show ?thesis unfolding res
      using covers_pushChild [of s s1 nullNode current] fresh first cur
      by (auto intro: grows_trans [OF _ pushChild_grows])
  next
    case (Some v)
    obtain r' s' where b: "buildYamlTree v (Some current) (getYamlPairKey ?p) s = (r', s')"
      by force
    have ih: "grows s s' \<and> (case r' of None \<Rightarrow> s' = s | Some c \<Rightarrow> covers s s' c)"
      using "2.IH" [OF Some "2.prems"(1) b] .
    have wf': "wfStore s' \<and> extends s s' \<and> (\<forall>c. r' = Some c \<longrightarrow> c < length (heap s'))"
      using builder_yaml(1) [OF "2.prems"(1) b] .
    show ?thesis
    proof (cases r')
      case None
      with Some b ih show ?thesis by (auto simp: covers_empty grows_refl)
    next
      case child: (Some childNode)
      let ?s'' = "(case getYamlRange (keyOrPairRange ?p) of
                     Some (ks, ke) \<Rightarrow> setKeySpan childNode (Some ks) (Some (ke - ks)) s'
                   | None \<Rightarrow> s')"
      have res: "buildYamlPair ?p current s = pushChild current childNode ?s''"
        using Some b child by simp
      have s'': "wfStore ?s'' \<and> grows s' ?s'' \<and> length (heap ?s'') = length (heap s') \<and>
                 covers s ?s'' childNode"
        using ih wf' child
        by (auto split: option.splits simp: setKeySpan_wf setKeySpan_grows grows_refl covers_setKeySpan)
      have cur: "current < length (heap ?s'')" "childNode < length (heap ?s'')"
        using wf' s'' "2.prems"(2) child
        by (auto simp: extends_length split: option.splits)
      show ?thesis unfolding res
        using covers_pushChild [of s ?s'' childNode current] s'' cur ih
        by (blast intro: grows_trans pushChild_grows)
    qed
  qed
next
  case (3 current s)
  then show ?case by (simp add: grows_refl covers_empty)
next
  case (4 p ps current s)
  let ?s' = "buildYamlPair p current s"
  have ih: "grows s ?s' \<and> covers s ?s' current"
    using "4.IH"(1) [OF "4.prems"] .
  have wf': "wfStore ?s' \<and> extends s ?s'"
    using builder_yaml(2) [OF "4.prems"] .
  have cur: "current < length (heap ?s')" "containerType (ntype (heap ?s' ! current))"
    using wf' "4.prems"(2,3) by (auto simp: extends_length extends_ntype)
  from "4.IH"(2) [OF _ cur] wf' ih cur show ?case
    by (auto intro: grows_trans covers_chain)
next
  case (5 index current s)
  then show ?case by (simp add: grows_refl covers_empty)
next
  case (6 item items index current s)
  show ?case
  proof (cases item)
    case None
    with "6.IH"(1) [OF None "6.prems"] show ?thesis by simp
  next
    case (Some node)
    obtain r' s' where b: "buildYamlTree node (Some current) (Some (JNumber (indexToString (int index)))) s = (r', s')"
      by force
    have ih: "grows s s' \<and> (case r' of None \<Rightarrow> s' = s | Some c \<Rightarrow> covers s s' c)"
      using "6.IH"(2) [OF Some "6.prems"(1) b] .
    have wf': "wfStore s' \<and> extends s s' \<and> (\<forall>c. r' = Some c \<longrightarrow> c < length (heap s'))"
      using builder_yaml(1) [OF "6.prems"(1) b] .
    have cur: "current < length (heap s')" "containerType (ntype (heap s' ! current))"
      using wf' "6.prems"(2,3) by (auto simp: extends_length extends_ntype)
    show ?thesis
    proof (cases r')
      case None
      from "6.IH"(3) [OF Some b [symmetric] None] wf' cur ih b None Some show ?thesis
        by simp
    next
      case child: (Some builtChild)
      let ?s'' = "pushChild current builtChild s'"
      have wf'': "wfStore ?s''"
        using pushChild_wf [of s' current builtChild] wf' cur child by simp
      have c'': "covers s ?s'' current"
        using covers_pushChild [of s s' builtChild current] ih wf' cur child by simp
      from "6.IH"(4) [OF Some b [symmetric] child] wf'' cur
      have "grows ?s'' (buildYamlItems items (Suc index) current ?s'') \<and>
            covers ?s'' (buildYamlItems items (Suc index) current ?s'') current"
        by simp
      with ih c'' wf'' cur b child Some show ?thesis
        by (auto intro: grows_trans [OF _ grows_trans [OF pushChild_grows]] covers_chain)
    qed
  qed
qed


subsection \<open>The store after a parse\<close>

lemma wf_emptyStore: "wfStore emptyStore"
  by (simp add: wfStore_def emptyStore_def)

lemma parseTree_cases:
  "(tree (parseTree ps active p) = None \<and> nodes (parseTree ps active p) = emptyStore) \<or>
   (\<exists>root. buildJsonTree root None None emptyStore =
             (tree (parseTree ps active p), nodes (parseTree ps active p))) \<or>
   (\<exists>root. buildYamlTree root None None emptyStore =
             (tree (parseTree ps active p), nodes (parseTree ps active p)))"
  by (auto simp: parseTree_def parseYamlTree_def Let_def
      split: option.splits prod.splits yaml_result.splits)

lemma parseTree_wf:
  "wfStore (nodes (parseTree ps active p)) \<and>
   (\<forall>r. tree (parseTree ps active p) = Some r \<longrightarrow> r < length (heap (nodes (parseTree ps active p))))"
  using parseTree_cases [of ps active p]
proof (elim disjE exE)
  fix root
  assume "buildJsonTree root None None emptyStore =
          (tree (parseTree ps active p), nodes (parseTree ps active p))"
  from builder_json(1) [OF wf_emptyStore this] show ?thesis by simp
next
  fix root
  assume "buildYamlTree root None None emptyStore =
          (tree (parseTree ps active p), nodes (parseTree ps active p))"
  from builder_yaml(1) [OF wf_emptyStore this] show ?thesis by simp
qed (simp add: wf_emptyStore)

lemma parseTree_all_reachable:
  assumes "tree (parseTree ps active p) = Some r"
    and "a < length (heap (nodes (parseTree ps active p)))"
  shows "reach (heap (nodes (parseTree ps active p))) r a"
proof -
  have "covers emptyStore (nodes (parseTree ps active p)) r"
    using parseTree_cases [of ps active p]
  proof (elim disjE exE)
    fix root
    assume "buildJsonTree root None None emptyStore =
            (tree (parseTree ps active p), nodes (parseTree ps active p))"
    from cover_json(1) [OF wf_emptyStore this] assms(1) show ?thesis by simp
  next
    fix root
    assume "buildYamlTree root None None emptyStore =
            (tree (parseTree ps active p), nodes (parseTree ps active p))"
    from cover_yaml(1) [OF wf_emptyStore this] assms(1) show ?thesis by simp
  qed (use assms(1) in simp)
  with assms(2) show ?thesis
    by (simp add: covers_def emptyStore_def)
qed

lemma wf_index:
  "wfStore s \<Longrightarrow> a < length (heap s) \<Longrightarrow>
   \<exists>b. nodeMap s (offset (heap s ! a)) = Some b \<and> b < length (heap s) \<and>
       offset (heap s ! b) = offset (heap s ! a) \<and> a \<le> b"
  unfolding wfStore_def by (metis not_None_eq)

section \<open>Evaluating the sample documents\<close>

lemmas store_defs = emptyStore_def newNode_def pushChild_def setKeySpan_def

lemmas sample_defs = initialProvider_def fixedParsers_def openDocument_def jsonArrayDoc_def
  jsonObjectText_def jsonObjectDoc_def yamlScalar_def yamlMap_def yamlSeq_def
  yamlNestedText_def yamlColonPair_def yamlNestedDoc_def yamlBarePair_def yamlFlowMapDoc_def
  yamlFlowSeqDoc_def yamlQuotedText_def yamlQuotedDoc_def yamlPlainDoc_def yamlMappingStore_def

lemmas yaml_defs = buildYamlTree.simps getYamlRange_def entry_def getYamlValue_def
  getYamlNodeType_def getYamlPairKey_def keyOrPairRange_def parseYamlTree_def

lemmas parse_defs = parseTree_def isYamlLanguage_def normalizeNodeType_def indexToString_def
  digits.simps hexDigit_def

text \<open>The parse of \<^verbatim>\<open>[1]\<close> under any language id but \<^verbatim>\<open>yaml\<close>.\<close>

lemma parsed_array:
  "parseTree (fixedParsers (Some jsonArrayDoc) YamlThrows) (Some (openDocument lang ''[1]'')) initialProvider =
   \<lparr>tree = Some 0, ptext = ''[1]'', editor = Some (openDocument lang ''[1]''),
    languageId = Some lang,
    nodes = \<lparr>heap = [\<lparr>offset = 0, nlength = 3, ntype = TArray, nvalue = None, parent = None,
                        children = Some [1], key = None, keyOffset = None, keyLength = None\<rparr>,
                      \<lparr>offset = 1, nlength = 1, ntype = TNumber, nvalue = Some (JNumber ''1''),
                        parent = Some 0, children = Some [], key = Some (JNumber ''0''),
                        keyOffset = None, keyLength = None\<rparr>],
              nodeMap = (\<lambda>_. None)(0 := Some 0, 1 := Some 1)\<rparr>\<rparr>"
  if "lang \<noteq> ''yaml''"
  using that by (simp add: sample_defs parse_defs store_defs)

lemma parsed_object:
  "parseTree (fixedParsers (Some jsonObjectDoc) YamlThrows) (Some (openDocument ''json'' jsonObjectText)) initialProvider =
   \<lparr>tree = Some 0, ptext = jsonObjectText, editor = Some (openDocument ''json'' jsonObjectText),
    languageId = Some ''json'',
    nodes = \<lparr>heap = [\<lparr>offset = 0, nlength = 7, ntype = TObject, nvalue = None, parent = None,
                        children = Some [1], key = None, keyOffset = None, keyLength = None\<rparr>,
                      \<lparr>offset = 5, nlength = 1, ntype = TNumber, nvalue = Some (JNumber ''1''),
                        parent = Some 0, children = Some [], key = Some (JString ''a''),
                        keyOffset = Some 1, keyLength = Some 3\<rparr>],
              nodeMap = (\<lambda>_. None)(0 := Some 0, 5 := Some 1)\<rparr>\<rparr>"
  by (simp add: sample_defs parse_defs store_defs)

lemma parsed_quoted:
  "parseTree (fixedParsers None (YamlDocument (Some yamlQuotedDoc))) (Some (openDocument ''yaml'' yamlQuotedText)) initialProvider =
   \<lparr>tree = Some 0, ptext = yamlQuotedText, editor = Some (openDocument ''yaml'' yamlQuotedText),
    languageId = Some ''yaml'',
    nodes = \<lparr>heap = [\<lparr>offset = 0, nlength = 8, ntype = TObject,
                        nvalue = Some (JObject ''[object Object]''), parent = None,
                        children = Some [1], key = None, keyOffset = None, keyLength = None\<rparr>,
                      \<lparr>offset = 7, nlength = 1, ntype = TNumber, nvalue = Some (JNumber ''1''),
                        parent = Some 0, children = Some [], key = Some (JString ''old''),
                        keyOffset = Some 0, keyLength = Some 5\<rparr>],
              nodeMap = (\<lambda>_. None)(0 := Some 0, 7 := Some 1)\<rparr>\<rparr>"
  by (simp add: sample_defs parse_defs store_defs yaml_defs)

lemma parsed_plain:
  "parseTree (fixedParsers None (YamlDocument (Some yamlPlainDoc))) (Some (openDocument ''yaml'' ''old: 1'')) initialProvider =
   \<lparr>tree = Some 0, ptext = ''old: 1'', editor = Some (openDocument ''yaml'' ''old: 1''),
    languageId = Some ''yaml'',
    nodes = \<lparr>heap = [\<lparr>offset = 0, nlength = 6, ntype = TObject,
                        nvalue = Some (JObject ''[object Object]''), parent = None,
                        children = Some [1], key = None, keyOffset = None, keyLength = None\<rparr>,
                      \<lparr>offset = 5, nlength = 1, ntype = TNumber, nvalue = Some (JNumber ''1''),
                        parent = Some 0, children = Some [], key = Some (JString ''old''),
                        keyOffset = Some 0, keyLength = Some 3\<rparr>],
              nodeMap = (\<lambda>_. None)(0 := Some 0, 5 := Some 1)\<rparr>\<rparr>"
  by (simp add: sample_defs parse_defs store_defs yaml_defs)

lemma parsed_array_reach:
  "reach (heap (nodes (parseTree (fixedParsers (Some jsonArrayDoc) YamlThrows)
      (Some (openDocument ''json'' ''[1]'')) initialProvider))) 0 1"
  by (rule reach.reach_child [OF reach.reach_root, where cs = "[1]"]) (simp_all add: parsed_array)

text \<open>The parse of the YAML text whose key \<^verbatim>\<open>c\<close> is followed by a colon and nothing else.\<close>

lemma parsed_nested:
  "parseTree (fixedParsers None (YamlDocument (Some yamlNestedDoc))) (Some (openDocument ''yaml'' yamlNestedText)) initialProvider =
   \<lparr>tree = Some 0, ptext = yamlNestedText, editor = Some (openDocument ''yaml'' yamlNestedText),
    languageId = Some ''yaml'',
    nodes = \<lparr>heap = [\<lparr>offset = 0, nlength = 14, ntype = TObject,
                        nvalue = Some (JObject ''[object Object]''), parent = None,
                        children = Some [1], key = None, keyOffset = None, keyLength = None\<rparr>,
                      \<lparr>offset = 5, nlength = 9, ntype = TObject,
                        nvalue = Some (JObject ''[object Object]''), parent = Some 0,
                        children = Some [2, 3], key = Some (JString ''a''),
                        keyOffset = Some 0, keyLength = Some 1\<rparr>,
                      \<lparr>offset = 8, nlength = 1, ntype = TNumber, nvalue = Some (JNumber ''2''),
                        parent = Some 1, children = Some [], key = Some (JString ''b''),
                        keyOffset = Some 5, keyLength = Some 1\<rparr>,
                      \<lparr>offset = 14, nlength = 0, ntype = TNull, nvalue = Some JNull,
                        parent = Some 1, children = Some [], key = Some (JString ''c''),
                        keyOffset = Some 12, keyLength = Some 1\<rparr>],
              nodeMap = (\<lambda>_. None)(0 := Some 0, 5 := Some 1, 8 := Some 2, 14 := Some 3)\<rparr>\<rparr>"
  by (simp add: sample_defs parse_defs store_defs yaml_defs numeral_2_eq_2 numeral_3_eq_3)

text \<open>The parse of \<^verbatim>\<open>{a}\<close>.\<close>

lemma parsed_flow_map:
  "parseTree (fixedParsers None (YamlDocument (Some yamlFlowMapDoc))) (Some (openDocument ''yaml'' ''{a}'')) initialProvider =
   \<lparr>tree = Some 0, ptext = ''{a}'', editor = Some (openDocument ''yaml'' ''{a}''),
    languageId = Some ''yaml'',
    nodes = \<lparr>heap = [\<lparr>offset = 0, nlength = 3, ntype = TObject,
                        nvalue = Some (JObject ''[object Object]''), parent = None,
                        children = Some [1], key = None, keyOffset = None, keyLength = None\<rparr>,
                      \<lparr>offset = 2, nlength = 0, ntype = TNull, nvalue = None,
                        parent = Some 0, children = Some [], key = Some (JString ''a''),
                        keyOffset = Some 1, keyLength = Some 1\<rparr>],
              nodeMap = (\<lambda>_. None)(0 := Some 0, 2 := Some 1)\<rparr>\<rparr>"
  by (simp add: sample_defs parse_defs store_defs yaml_defs)

text \<open>The parse of \<^verbatim>\<open>[?]\<close>.\<close>

lemma parsed_flow_seq:
  "parseTree (fixedParsers None (YamlDocument (Some yamlFlowSeqDoc))) (Some (openDocument ''yaml'' ''[?]'')) initialProvider =
   \<lparr>tree = Some 0, ptext = ''[?]'', editor = Some (openDocument ''yaml'' ''[?]''),
    languageId = Some ''yaml'',
    nodes = \<lparr>heap = [\<lparr>offset = 0, nlength = 3, ntype = TArray,
                        nvalue = Some (JObject ''[object Object]''), parent = None,
                        children = Some [1], key = None, keyOffset = None, keyLength = None\<rparr>,
                      \<lparr>offset = 2, nlength = 0, ntype = TObject,
                        nvalue = Some (JObject ''[object Object]''), parent = Some 0,
                        children = Some [2], key = Some (JNumber ''0''),
                        keyOffset = None, keyLength = None\<rparr>,
                      \<lparr>offset = 2, nlength = 0, ntype = TNull, nvalue = None,
                        parent = Some 1, children = Some [], key = Some JNull,
                        keyOffset = Some 2, keyLength = Some 0\<rparr>],
              nodeMap = (\<lambda>_. None)(0 := Some 0, 2 := Some 2)\<rparr>\<rparr>"
  by (simp add: sample_defs parse_defs store_defs yaml_defs numeral_2_eq_2)

section \<open>The claims\<close>

subsection \<open>C1: documents of another language\<close>

text \<open>
  C1 says that a document whose language id is none of \<^verbatim>\<open>json\<close>, \<^verbatim>\<open>jsonc\<close>, \<^verbatim>\<open>yaml\<close> parses to
  an undefined tree and that every enumeration of children is then empty. \<^verbatim>\<open>parseTree\<close>
  has no such test: it asks \<^verbatim>\<open>isYamlLanguage()\<close> and otherwise calls \<^verbatim>\<open>json.parseTree\<close>. A
  \<^verbatim>\<open>plaintext\<close> document with the text \<^verbatim>\<open>[1]\<close> gets a tree, and its root has a child.
\<close>

theorem plaintext_document_is_parsed:
  "''plaintext'' \<notin> {''json'', ''jsonc'', ''yaml''} \<and>
   tree (parseTree (fixedParsers (Some jsonArrayDoc) YamlThrows)
           (Some (openDocument ''plaintext'' ''[1]'')) initialProvider) = Some 0 \<and>
   getChildren None (parseTree (fixedParsers (Some jsonArrayDoc) YamlThrows)
           (Some (openDocument ''plaintext'' ''[1]'')) initialProvider) = Inr [1]"
  by (simp add: parsed_array getChildren_def getChildrenOffsets_def)

text \<open>
  C1 as the code has it: for a document whose language id is not \<^verbatim>\<open>yaml\<close>, whatever else
  it is, the tree and the index are what the JSON builder makes of the root that the JSON
  parser returns for the text, and they are empty when the parser returns no root; and
  whenever the tree is undefined, every enumeration of children is the empty list.
\<close>

theorem parseTree_not_yaml:
  assumes "docLanguageId ed \<noteq> ''yaml''"
  shows "(tree (parseTree ps (Some ed) p), nodes (parseTree ps (Some ed) p)) =
           (case jsonParse ps (docText ed) of
              None \<Rightarrow> (None, emptyStore)
            | Some root \<Rightarrow> buildJsonTree root None None emptyStore) \<and>
         (tree (parseTree ps (Some ed) p) = None \<longrightarrow>
            (\<forall>off. getChildren off (parseTree ps (Some ed) p) = Inr []))"
  using assms
  by (auto simp: parseTree_def isYamlLanguage_def getChildren_def Let_def
      split: option.splits prod.splits)

theorem parseTree_not_yaml_witness:
  "docLanguageId (openDocument ''plaintext'' ''hello'') \<noteq> ''yaml'' \<and>
   tree (parseTree (fixedParsers None YamlThrows) (Some (openDocument ''plaintext'' ''hello'')) initialProvider) = None \<and>
   getChildren (Some 3) (parseTree (fixedParsers None YamlThrows)
      (Some (openDocument ''plaintext'' ''hello'')) initialProvider) = Inr []"
  using parseTree_not_yaml [of "openDocument ''plaintext'' ''hello''" "fixedParsers None YamlThrows" initialProvider]
  by (simp add: openDocument_def fixedParsers_def)

subsection \<open>C8: what the facade does with an unknown offset\<close>

text \<open>
  C8 says that asking for the children of an offset that is not in the index is a hard
  error. \<^verbatim>\<open>getChildren\<close> resolves to the empty list instead: after the parse of \<^verbatim>\<open>[1]\<close> the
  offset 5 has no entry, a tree is loaded, and the answer is \<open>[]\<close>.
\<close>

theorem getChildren_unknown_offset_is_empty:
  "nodeMap (nodes (parseTree (fixedParsers (Some jsonArrayDoc) YamlThrows)
      (Some (openDocument ''json'' ''[1]'')) initialProvider)) 5 = None \<and>
   tree (parseTree (fixedParsers (Some jsonArrayDoc) YamlThrows)
      (Some (openDocument ''json'' ''[1]'')) initialProvider) = Some 0 \<and>
   getChildren (Some 5) (parseTree (fixedParsers (Some jsonArrayDoc) YamlThrows)
      (Some (openDocument ''json'' ''[1]'')) initialProvider) = Inr []"
  by (simp add: parsed_array getChildren_def)

text \<open>
  C8 as the code has it: \<^verbatim>\<open>getTreeItem\<close> throws when no tree is loaded, when no editor is
  loaded, and when the offset has no entry in the index. \<^verbatim>\<open>getChildren\<close> never fails: it
  always resolves to a list, which is empty when no tree is loaded and when a non-zero
  offset has no entry in the index.
\<close>

theorem facade_error_policy:
  "(tree p = None \<longrightarrow> getTreeItem off p = Inl InvalidTree) \<and>
   (tree p \<noteq> None \<and> editor p = None \<longrightarrow> getTreeItem off p = Inl InvalidEditor) \<and>
   (tree p \<noteq> None \<and> editor p \<noteq> None \<and> nodeMap (nodes p) off = None \<longrightarrow>
      getTreeItem off p = Inl (NodeNotFound off)) \<and>
   (\<exists>offsets. getChildren q p = Inr offsets) \<and>
   (tree p = None \<longrightarrow> getChildren q p = Inr []) \<and>
   (off \<noteq> 0 \<and> nodeMap (nodes p) off = None \<longrightarrow> getChildren (Some off) p = Inr [])"
  by (auto simp: getTreeItem_def getChildren_def split: option.splits)

theorem facade_error_policy_witness:
  "getTreeItem 5 (parseTree (fixedParsers (Some jsonArrayDoc) YamlThrows)
      (Some (openDocument ''json'' ''[1]'')) initialProvider) = Inl (NodeNotFound 5) \<and>
   getChildren (Some 5) (parseTree (fixedParsers (Some jsonArrayDoc) YamlThrows)
      (Some (openDocument ''json'' ''[1]'')) initialProvider) = Inr [] \<and>
   getTreeItem 1 initialProvider = Inl InvalidTree \<and>
   getChildren (Some 1) initialProvider = Inr []"
  using facade_error_policy [of "parseTree (fixedParsers (Some jsonArrayDoc) YamlThrows)
      (Some (openDocument ''json'' ''[1]'')) initialProvider" 5 "Some 5"]
    facade_error_policy [of initialProvider 1 "Some 1"]
  by (simp add: parsed_array) (simp add: initialProvider_def)

subsection \<open>C7: renames that are refused\<close>

text \<open>
  C7: when the target of a rename is a child of an array node, or has no recorded key span
  (\<^verbatim>\<open>keyOffset\<close> or \<^verbatim>\<open>keyLength\<close> undefined), the rename is a silent no-op: no edit is handed
  to the editor, whatever the input box returned, and the provider with its document is
  left as it was. The operation has no failing path, so no error is raised.
\<close>

theorem rename_refused:
  assumes "nodeMap (nodes p) off = Some a"
    and "(\<exists>q. parent (heap (nodes p) ! a) = Some q \<and> ntype (heap (nodes p) ! q) = TArray) \<or>
         keyOffset (heap (nodes p) ! a) = None \<or> keyLength (heap (nodes p) ! a) = None"
  shows "renameEdit off v p = None \<and> rename off v p = p"
proof -
  have "renameEdit off v p = None"
    using assms by (auto simp: renameEdit_def Let_def split: option.splits)
  then show ?thesis
    by (simp add: rename_def)
qed

theorem rename_refused_witness:
  "rename 1 (Some ''x'') (parseTree (fixedParsers (Some jsonArrayDoc) YamlThrows)
      (Some (openDocument ''json'' ''[1]'')) initialProvider) =
   parseTree (fixedParsers (Some jsonArrayDoc) YamlThrows)
      (Some (openDocument ''json'' ''[1]'')) initialProvider \<and>
   renameEdit 0 (Some ''x'') (parseTree (fixedParsers (Some jsonArrayDoc) YamlThrows)
      (Some (openDocument ''json'' ''[1]'')) initialProvider) = None"
  using rename_refused [of "parseTree (fixedParsers (Some jsonArrayDoc) YamlThrows)
      (Some (openDocument ''json'' ''[1]'')) initialProvider" 1 1 "Some ''x''"]
    rename_refused [of "parseTree (fixedParsers (Some jsonArrayDoc) YamlThrows)
      (Some (openDocument ''json'' ''[1]'')) initialProvider" 0 0 "Some ''x''"]
  by (simp add: parsed_array)

subsection \<open>C5: the replacement text of a rename\<close>

text \<open>The conditions under which the callback of \<open>rename\<close> reaches the edit.\<close>

lemma renameEdit_valid:
  assumes "editor p = Some ed" and "tree p = Some r" and "nodeMap (nodes p) off = Some a"
    and "\<not> (\<exists>q. parent (heap (nodes p) ! a) = Some q \<and> ntype (heap (nodes p) ! q) = TArray)"
    and "keyOffset (heap (nodes p) ! a) = Some ko" and "keyLength (heap (nodes p) ! a) = Some kl"
  shows "renameEdit off (Some v) p =
           Some \<lparr>editStart = ko, editEnd = ko + kl,
                 newText = (if isYamlLanguage p then formatYamlKey p v (heap (nodes p) ! a)
                            else JSON_stringify v)\<rparr>"
  using assms by (auto simp: renameEdit_def Let_def split: option.splits)

text \<open>
  C5: a rename of a valid target (an editor and a tree are loaded, the offset is in the
  index, the parent is not an array node and the key span is recorded) with the new label
  \<open>v\<close> replaces the key span by: the JSON-quoted form \<^verbatim>\<open>JSON.stringify(v)\<close> when the language is
  not YAML, so for JSON and JSONC; in YAML, \<open>v\<close> between two copies of the quote when the
  trimmed text of the existing key starts with a double or a single quote, and \<open>v\<close> as it
  is otherwise.
\<close>

theorem rename_replacement_text:
  assumes "editor p = Some ed" and "tree p = Some r" and "nodeMap (nodes p) off = Some a"
    and "\<not> (\<exists>q. parent (heap (nodes p) ! a) = Some q \<and> ntype (heap (nodes p) ! q) = TArray)"
    and "keyOffset (heap (nodes p) ! a) = Some ko" and "keyLength (heap (nodes p) ! a) = Some kl"
  shows "\<exists>replacement.
           renameEdit off (Some v) p = Some \<lparr>editStart = ko, editEnd = ko + kl, newText = replacement\<rparr> \<and>
           (languageId p \<noteq> Some ''yaml'' \<longrightarrow> replacement = JSON_stringify v) \<and>
           (languageId p = Some ''yaml'' \<longrightarrow>
              (\<forall>quote rest. trim (slice (ptext p) ko (ko + kl)) = quote # rest \<and>
                    (quote = CHR 0x22 \<or> quote = CHR 0x27) \<longrightarrow>
                  replacement = quote # v @ [quote]) \<and>
              (\<not> startsWith (trim (slice (ptext p) ko (ko + kl))) (CHR 0x22) \<and>
               \<not> startsWith (trim (slice (ptext p) ko (ko + kl))) (CHR 0x27) \<longrightarrow>
                  replacement = v))"
  unfolding renameEdit_valid [OF assms]
  using assms(5,6)
  by (auto simp: isYamlLanguage_def formatYamlKey_def startsWith_def Let_def)

theorem rename_replacement_text_witness:
  "renameEdit 7 (Some ''new'') (parseTree (fixedParsers None (YamlDocument (Some yamlQuotedDoc)))
      (Some (openDocument ''yaml'' yamlQuotedText)) initialProvider) =
     Some \<lparr>editStart = 0, editEnd = 5, newText = [CHR 0x22] @ ''new'' @ [CHR 0x22]\<rparr> \<and>
   renameEdit 5 (Some ''new'') (parseTree (fixedParsers None (YamlDocument (Some yamlPlainDoc)))
      (Some (openDocument ''yaml'' ''old: 1'')) initialProvider) =
     Some \<lparr>editStart = 0, editEnd = 3, newText = ''new''\<rparr> \<and>
   renameEdit 5 (Some ''new'') (parseTree (fixedParsers (Some jsonObjectDoc) YamlThrows)
      (Some (openDocument ''json'' jsonObjectText)) initialProvider) =
     Some \<lparr>editStart = 1, editEnd = 4, newText = [CHR 0x22] @ ''new'' @ [CHR 0x22]\<rparr>"
  using
    rename_replacement_text [of "parseTree (fixedParsers None (YamlDocument (Some yamlQuotedDoc)))
      (Some (openDocument ''yaml'' yamlQuotedText)) initialProvider" "openDocument ''yaml'' yamlQuotedText"
      0 7 1 0 5 "''new''"]
    rename_replacement_text [of "parseTree (fixedParsers None (YamlDocument (Some yamlPlainDoc)))
      (Some (openDocument ''yaml'' ''old: 1'')) initialProvider" "openDocument ''yaml'' ''old: 1''"
      0 5 1 0 3 "''new''"]
    rename_replacement_text [of "parseTree (fixedParsers (Some jsonObjectDoc) YamlThrows)
      (Some (openDocument ''json'' jsonObjectText)) initialProvider" "openDocument ''json'' jsonObjectText"
      0 5 1 1 3 "''new''"]
  unfolding parsed_quoted parsed_plain parsed_object
  by (simp add: yamlQuotedText_def slice_def trim_def isWhiteSpace_def startsWith_def
      JSON_stringify_def quoteJSONChar_def)


subsection \<open>C10: renaming to the empty label\<close>

text \<open>
  C10 says that the empty label replaces the key span by the empty string, or by a bare
  pair of quotes for a quoted YAML key. In a JSON document the replacement is neither: it
  is \<^verbatim>\<open>JSON.stringify("")\<close>, a pair of double quotes.
\<close>

theorem rename_empty_label_in_json:
  "languageId (parseTree (fixedParsers (Some jsonObjectDoc) YamlThrows)
      (Some (openDocument ''json'' jsonObjectText)) initialProvider) = Some ''json'' \<and>
   renameEdit 5 (Some []) (parseTree (fixedParsers (Some jsonObjectDoc) YamlThrows)
      (Some (openDocument ''json'' jsonObjectText)) initialProvider) =
     Some \<lparr>editStart = 1, editEnd = 4, newText = [CHR 0x22, CHR 0x22]\<rparr>"
  unfolding parsed_object
  by (simp add: renameEdit_def isYamlLanguage_def JSON_stringify_def)

text \<open>
  C10 as the code has it: for a valid target the empty label is applied as an edit of the
  key span. The replacement is a pair of double quotes when the language is not YAML; in
  YAML it is a pair of the key's own quote when the trimmed key text starts with a double
  or a single quote, and the empty string otherwise. For such a target the callback
  returns without an edit only when the input box returned nothing.
\<close>

theorem rename_empty_label:
  assumes "editor p = Some ed" and "tree p = Some r" and "nodeMap (nodes p) off = Some a"
    and "\<not> (\<exists>q. parent (heap (nodes p) ! a) = Some q \<and> ntype (heap (nodes p) ! q) = TArray)"
    and "keyOffset (heap (nodes p) ! a) = Some ko" and "keyLength (heap (nodes p) ! a) = Some kl"
  shows "(\<exists>replacement.
           renameEdit off (Some []) p = Some \<lparr>editStart = ko, editEnd = ko + kl, newText = replacement\<rparr> \<and>
           (languageId p \<noteq> Some ''yaml'' \<longrightarrow> replacement = [CHR 0x22, CHR 0x22]) \<and>
           (languageId p = Some ''yaml'' \<longrightarrow>
              (\<forall>quote rest. trim (slice (ptext p) ko (ko + kl)) = quote # rest \<and>
                    (quote = CHR 0x22 \<or> quote = CHR 0x27) \<longrightarrow>
                  replacement = [quote, quote]) \<and>
              (\<not> startsWith (trim (slice (ptext p) ko (ko + kl))) (CHR 0x22) \<and>
               \<not> startsWith (trim (slice (ptext p) ko (ko + kl))) (CHR 0x27) \<longrightarrow>
                  replacement = []))) \<and>
         (\<forall>v. renameEdit off v p = None \<longleftrightarrow> v = None)"
proof -
  have "renameEdit off v p = None \<longleftrightarrow> v = None" for v
  proof (cases v)
    case None
    then show ?thesis by (simp add: renameEdit_def)
  next
    case (Some val)
    then show ?thesis by (simp add: renameEdit_valid [OF assms])
  qed
  moreover have "\<exists>replacement.
           renameEdit off (Some []) p = Some \<lparr>editStart = ko, editEnd = ko + kl, newText = replacement\<rparr> \<and>
           (languageId p \<noteq> Some ''yaml'' \<longrightarrow> replacement = [CHR 0x22, CHR 0x22]) \<and>
           (languageId p = Some ''yaml'' \<longrightarrow>
              (\<forall>quote rest. trim (slice (ptext p) ko (ko + kl)) = quote # rest \<and>
                    (quote = CHR 0x22 \<or> quote = CHR 0x27) \<longrightarrow>
                  replacement = [quote, quote]) \<and>
              (\<not> startsWith (trim (slice (ptext p) ko (ko + kl))) (CHR 0x22) \<and>
               \<not> startsWith (trim (slice (ptext p) ko (ko + kl))) (CHR 0x27) \<longrightarrow>
                  replacement = []))"
    unfolding renameEdit_valid [OF assms]
    using assms(5,6)
    by (auto simp: isYamlLanguage_def formatYamlKey_def startsWith_def Let_def JSON_stringify_def)
  ultimately show ?thesis by blast
qed

theorem rename_empty_label_witness:
  "renameEdit 7 (Some []) (parseTree (fixedParsers None (YamlDocument (Some yamlQuotedDoc)))
      (Some (openDocument ''yaml'' yamlQuotedText)) initialProvider) =
     Some \<lparr>editStart = 0, editEnd = 5, newText = [CHR 0x22, CHR 0x22]\<rparr> \<and>
   renameEdit 5 (Some []) (parseTree (fixedParsers None (YamlDocument (Some yamlPlainDoc)))
      (Some (openDocument ''yaml'' ''old: 1'')) initialProvider) =
     Some \<lparr>editStart = 0, editEnd = 3, newText = []\<rparr> \<and>
   renameEdit 5 None (parseTree (fixedParsers None (YamlDocument (Some yamlPlainDoc)))
      (Some (openDocument ''yaml'' ''old: 1'')) initialProvider) = None"
  using
    rename_empty_label [of "parseTree (fixedParsers None (YamlDocument (Some yamlQuotedDoc)))
      (Some (openDocument ''yaml'' yamlQuotedText)) initialProvider" "openDocument ''yaml'' yamlQuotedText"
      0 7 1 0 5]
    rename_empty_label [of "parseTree (fixedParsers None (YamlDocument (Some yamlPlainDoc)))
      (Some (openDocument ''yaml'' ''old: 1'')) initialProvider" "openDocument ''yaml'' ''old: 1''"
      0 5 1 0 3]
  unfolding parsed_quoted parsed_plain
  by (simp add: yamlQuotedText_def slice_def trim_def isWhiteSpace_def startsWith_def)

subsection \<open>C6: the label of a scalar inside an array\<close>

text \<open>
  C6 gives the label of a child of an array as index, colon, space, rendering. For an
  object or array child \<^verbatim>\<open>getLabel\<close> writes that; for a scalar child it writes the template
  \<^verbatim>\<open>${prefix}:${value}\<close>, without the space. The element of \<^verbatim>\<open>[1]\<close> is labelled \<^verbatim>\<open>0:1\<close>.
\<close>

theorem label_of_scalar_in_array:
  "getLabel (parseTree (fixedParsers (Some jsonArrayDoc) YamlThrows)
      (Some (openDocument ''json'' ''[1]'')) initialProvider) 1 = Inr ''0:1'' \<and>
   map_sum id label (getTreeItem 1 (parseTree (fixedParsers (Some jsonArrayDoc) YamlThrows)
      (Some (openDocument ''json'' ''[1]'')) initialProvider)) = Inr ''0:1''"
  by (simp add: parsed_array getTreeItem_def getLabel_def getNodeChildrenCount_def indexToString_def
      digits.simps hexDigit_def nodeText_def getIcon_def)
    (simp add: getText_def clampOffset_def openDocument_def)

subsection \<open>C3: property nodes of the JSON parse\<close>

text \<open>
  C3: a property node of a JSON parse tree is never made into a \<^verbatim>\<open>TreeNode\<close> of its own.
  The parser gives every property node its key child first, so the children of a property
  node are the key alone or the key and the value. With a value child, the builder returns
  what the call on the value child returns, with the parent of the property and the value
  of the key child as key: the index and the number of objects are those of that call, and
  the only difference in the store is that the returned object has \<^verbatim>\<open>keyOffset\<close> and
  \<^verbatim>\<open>keyLength\<close> set from the span of the key child. Without a value child, the property is
  dropped: the builder returns no node and leaves the store as it was, and the loop of the
  parent object or array goes on to the next child without a push.
\<close>

theorem property_node_is_collapsed:
  "(case (buildJsonTree (JNode ''property'' v off len (Some (keyNode # valueNode # rest))) par k s,
          buildJsonTree valueNode par (jvalue keyNode) s) of
      ((r, t), (r', t')) \<Rightarrow>
        r = r' \<and> nodeMap t = nodeMap t' \<and> length (heap t) = length (heap t') \<and>
        (case r of
           None \<Rightarrow> t = t'
         | Some child \<Rightarrow>
             child < length (heap t) \<and>
             heap t = (heap t')[child := (heap t' ! child)
                          \<lparr>keyOffset := Some (joffset keyNode), keyLength := Some (jlength keyNode)\<rparr>])) \<and>
   buildJsonTree (JNode ''property'' v off len (Some [keyNode])) par k s = (None, s) \<and>
   buildJsonObject (JNode ''property'' v off len (Some [keyNode]) # cs) cur s = buildJsonObject cs cur s \<and>
   buildJsonArray (JNode ''property'' v off len (Some [keyNode]) # cs) i cur s =
     buildJsonArray cs (Suc i) cur s"
proof -
  obtain r' t' where b: "buildJsonTree valueNode par (jvalue keyNode) s = (r', t')"
    by force
  have "\<forall>c. r' = Some c \<longrightarrow> c < length (heap t')"
    using json_result_allocated(1) [OF b] by simp
  then show ?thesis
    using b by (auto simp: setKeySpan_def split: option.splits)
qed

theorem property_node_is_collapsed_witness:
  "buildJsonTree (JNode ''property'' None 1 5
      (Some [JNode ''string'' (Some (JString ''a'')) 1 3 None,
             JNode ''number'' (Some (JNumber ''1'')) 5 1 None])) None None emptyStore =
     (Some 0,
      \<lparr>heap = [\<lparr>offset = 5, nlength = 1, ntype = TNumber, nvalue = Some (JNumber ''1''), parent = None,
                children = Some [], key = Some (JString ''a''), keyOffset = Some 1,
                keyLength = Some 3\<rparr>],
        nodeMap = (\<lambda>_. None)(5 := Some 0)\<rparr>)"
  using property_node_is_collapsed [where v = None and off = 1 and len = 5
      and keyNode = "JNode ''string'' (Some (JString ''a'')) 1 3 None"
      and valueNode = "JNode ''number'' (Some (JNumber ''1'')) 5 1 None" and rest = "[]"
      and par = None and k = None and s = emptyStore]
  by (simp add: store_defs normalizeNodeType_def)

subsection \<open>C2: a YAML key without a value\<close>

text \<open>
  C2 says that a mapping entry whose value is absent gets a node at the end of its key
  span. For an entry written as a key and a colon with nothing after it, the library gives
  the pair an empty scalar as value, so \<^verbatim>\<open>pair.value\<close> is not empty and the child is built from
  that scalar: in the text of three lines the key \<^verbatim>\<open>c\<close> spans 12 to 13, the child is at
  offset 14, after the colon, and the index has no entry at 13.
\<close>

theorem colon_without_value_is_after_the_colon:
  "getChildren (Some 5) (parseTree (fixedParsers None (YamlDocument (Some yamlNestedDoc)))
      (Some (openDocument ''yaml'' yamlNestedText)) initialProvider) = Inr [8, 14] \<and>
   heap (nodes (parseTree (fixedParsers None (YamlDocument (Some yamlNestedDoc)))
      (Some (openDocument ''yaml'' yamlNestedText)) initialProvider)) ! 3 =
     \<lparr>offset = 14, nlength = 0, ntype = TNull, nvalue = Some JNull, parent = Some 1,
      children = Some [], key = Some (JString ''c''), keyOffset = Some 12, keyLength = Some 1\<rparr> \<and>
   getYamlRange (keyOrPairRange yamlColonPair) = Some (12, 13) \<and>
   nodeMap (nodes (parseTree (fixedParsers None (YamlDocument (Some yamlNestedDoc)))
      (Some (openDocument ''yaml'' yamlNestedText)) initialProvider)) 13 = None \<and>
   getTreeItem 13 (parseTree (fixedParsers None (YamlDocument (Some yamlNestedDoc)))
      (Some (openDocument ''yaml'' yamlNestedText)) initialProvider) = Inl (NodeNotFound 13)"
  by (simp add: parsed_nested getChildren_def getChildrenOffsets_def getTreeItem_def)
    (simp add: yamlColonPair_def yamlScalar_def yaml_defs)

text \<open>
  C2 as the code has it. For a pair of a mapping whose value is \<^verbatim>\<open>null\<close> (a key that no colon
  follows, as in the flow mapping \<^verbatim>\<open>{a}\<close>), the loop body of the builder makes one new object,
  of type \<^verbatim>\<open>null\<close> and of length 0. Its offset is the end of the resolved key span, that is
  of \<^verbatim>\<open>getYamlRange(pair.key || pair)\<close>, or the offset of the parent mapping when that span
  does not resolve. The object is put into the index at its offset and appended to the
  children of the parent, with the key of the pair as its key. For a pair whose value is
  an empty scalar of value \<^verbatim>\<open>null\<close> (a key and a colon with nothing after it), the child is
  built from the scalar: one new object of type \<^verbatim>\<open>null\<close> and of length 0, at the offset of
  the scalar, in the index at that offset and appended to the children of the parent, with
  the key of the pair as its key and the resolved key span as its key span.
\<close>

theorem value_less_pair_gets_null_node:
  assumes "cur < length (heap s)" and "children (heap s ! cur) = Some cs"
  shows "(let pair = YPair pk None pr;
              keyRange = getYamlRange (keyOrPairRange pair);
              t = buildYamlPair pair cur s;
              a = length (heap s)
          in length (heap t) = Suc a \<and>
             ntype (heap t ! a) = TNull \<and> nlength (heap t ! a) = 0 \<and>
             offset (heap t ! a) = (case keyRange of Some (ks, ke) \<Rightarrow> ke | None \<Rightarrow> offset (heap s ! cur)) \<and>
             key (heap t ! a) = getYamlPairKey pair \<and>
             parent (heap t ! a) = Some cur \<and>
             nodeMap t (offset (heap t ! a)) = Some a \<and>
             children (heap t ! cur) = Some (cs @ [a])) \<and>
         (\<forall>r j ts pos. getYamlRange r = Some (pos, pos) \<longrightarrow>
            (let pair = YPair pk (Some (YScalar (YInfo r (Some JNull) j ts))) pr;
                 keyRange = getYamlRange (keyOrPairRange pair);
                 t = buildYamlPair pair cur s;
                 a = length (heap s)
             in length (heap t) = Suc a \<and>
                ntype (heap t ! a) = TNull \<and> nlength (heap t ! a) = 0 \<and>
                offset (heap t ! a) = pos \<and>
                key (heap t ! a) = getYamlPairKey pair \<and>
                parent (heap t ! a) = Some cur \<and>
                keyOffset (heap t ! a) = map_option fst keyRange \<and>
                keyLength (heap t ! a) = map_option (\<lambda>(ks, ke). ke - ks) keyRange \<and>
                nodeMap t pos = Some a \<and>
                children (heap t ! cur) = Some (cs @ [a])))"
proof (intro conjI allI impI)
  show "let pair = YPair pk None pr;
              keyRange = getYamlRange (keyOrPairRange pair);
              t = buildYamlPair pair cur s;
              a = length (heap s)
          in length (heap t) = Suc a \<and>
             ntype (heap t ! a) = TNull \<and> nlength (heap t ! a) = 0 \<and>
             offset (heap t ! a) = (case keyRange of Some (ks, ke) \<Rightarrow> ke | None \<Rightarrow> offset (heap s ! cur)) \<and>
             key (heap t ! a) = getYamlPairKey pair \<and>
             parent (heap t ! a) = Some cur \<and>
             nodeMap t (offset (heap t ! a)) = Some a \<and>
             children (heap t ! cur) = Some (cs @ [a])"
    using assms
    by (simp add: Let_def store_defs nth_append split: option.splits)
next
  fix r j ts pos
  assume r: "getYamlRange r = Some (pos, pos)"
  show "let pair = YPair pk (Some (YScalar (YInfo r (Some JNull) j ts))) pr;
                 keyRange = getYamlRange (keyOrPairRange pair);
                 t = buildYamlPair pair cur s;
                 a = length (heap s)
             in length (heap t) = Suc a \<and>
                ntype (heap t ! a) = TNull \<and> nlength (heap t ! a) = 0 \<and>
                offset (heap t ! a) = pos \<and>
                key (heap t ! a) = getYamlPairKey pair \<and>
                parent (heap t ! a) = Some cur \<and>
                keyOffset (heap t ! a) = map_option fst keyRange \<and>
                keyLength (heap t ! a) = map_option (\<lambda>(ks, ke). ke - ks) keyRange \<and>
                nodeMap t pos = Some a \<and>
                children (heap t ! cur) = Some (cs @ [a])"
    using assms r
    by (simp add: Let_def store_defs buildYamlTree.simps getYamlNodeType_def getYamlValue_def
        nth_append nth_list_update split: option.splits)
qed

theorem value_less_pair_gets_null_node_witness:
  "0 < length (heap (yamlMappingStore 0 3)) \<and> children (heap (yamlMappingStore 0 3) ! 0) = Some [] \<and>
   heap (buildYamlPair yamlBarePair 0 (yamlMappingStore 0 3)) ! 1 =
     \<lparr>offset = 2, nlength = 0, ntype = TNull, nvalue = None, parent = Some 0,
      children = Some [], key = Some (JString ''a''), keyOffset = Some 1, keyLength = Some 1\<rparr> \<and>
   nodeMap (buildYamlPair yamlBarePair 0 (yamlMappingStore 0 3)) 2 = Some 1 \<and>
   children (heap (buildYamlPair yamlBarePair 0 (yamlMappingStore 0 3)) ! 0) = Some [1] \<and>
   getChildren None (parseTree (fixedParsers None (YamlDocument (Some yamlFlowMapDoc)))
      (Some (openDocument ''yaml'' ''{a}'')) initialProvider) = Inr [2] \<and>
   map_sum id label (getTreeItem 2 (parseTree (fixedParsers None (YamlDocument (Some yamlFlowMapDoc)))
      (Some (openDocument ''yaml'' ''{a}'')) initialProvider)) = Inr ''a: '' \<and>
   0 < length (heap (yamlMappingStore 5 9)) \<and> children (heap (yamlMappingStore 5 9) ! 0) = Some [] \<and>
   getYamlRange (Some (RangeArray [Some 14, Some 14, Some 14])) = Some (14, 14) \<and>
   heap (buildYamlPair yamlColonPair 0 (yamlMappingStore 5 9)) ! 1 =
     \<lparr>offset = 14, nlength = 0, ntype = TNull, nvalue = Some JNull, parent = Some 0,
      children = Some [], key = Some (JString ''c''), keyOffset = Some 12, keyLength = Some 1\<rparr> \<and>
   nodeMap (buildYamlPair yamlColonPair 0 (yamlMappingStore 5 9)) 14 = Some 1 \<and>
   children (heap (buildYamlPair yamlColonPair 0 (yamlMappingStore 5 9)) ! 0) = Some [1]"
proof -
  have "0 < length (heap (yamlMappingStore 0 3)) \<and> children (heap (yamlMappingStore 0 3) ! 0) = Some [] \<and>
   heap (buildYamlPair yamlBarePair 0 (yamlMappingStore 0 3)) ! 1 =
     \<lparr>offset = 2, nlength = 0, ntype = TNull, nvalue = None, parent = Some 0,
      children = Some [], key = Some (JString ''a''), keyOffset = Some 1, keyLength = Some 1\<rparr> \<and>
   nodeMap (buildYamlPair yamlBarePair 0 (yamlMappingStore 0 3)) 2 = Some 1 \<and>
   children (heap (buildYamlPair yamlBarePair 0 (yamlMappingStore 0 3)) ! 0) = Some [1] \<and>
   0 < length (heap (yamlMappingStore 5 9)) \<and> children (heap (yamlMappingStore 5 9) ! 0) = Some [] \<and>
   getYamlRange (Some (RangeArray [Some 14, Some 14, Some 14])) = Some (14, 14) \<and>
   heap (buildYamlPair yamlColonPair 0 (yamlMappingStore 5 9)) ! 1 =
     \<lparr>offset = 14, nlength = 0, ntype = TNull, nvalue = Some JNull, parent = Some 0,
      children = Some [], key = Some (JString ''c''), keyOffset = Some 12, keyLength = Some 1\<rparr> \<and>
   nodeMap (buildYamlPair yamlColonPair 0 (yamlMappingStore 5 9)) 14 = Some 1 \<and>
   children (heap (buildYamlPair yamlColonPair 0 (yamlMappingStore 5 9)) ! 0) = Some [1]"
    using value_less_pair_gets_null_node [of 0 "yamlMappingStore 0 3" "[]"
        "Some (yamlScalar 1 2 2 (JString ''a''))" None]
      value_less_pair_gets_null_node [of 0 "yamlMappingStore 5 9" "[]"
        "Some (yamlScalar 12 13 13 (JString ''c''))" None]
    by (simp add: yamlMappingStore_def yamlBarePair_def yamlColonPair_def yamlScalar_def
        store_defs yaml_defs)
  moreover have "getChildren None (parseTree (fixedParsers None (YamlDocument (Some yamlFlowMapDoc)))
      (Some (openDocument ''yaml'' ''{a}'')) initialProvider) = Inr [2]"
    by (simp add: parsed_flow_map getChildren_def getChildrenOffsets_def)
  moreover have "map_sum id label (getTreeItem 2 (parseTree (fixedParsers None (YamlDocument (Some yamlFlowMapDoc)))
      (Some (openDocument ''yaml'' ''{a}'')) initialProvider)) = Inr ''a: ''"
    by (simp add: parsed_flow_map getTreeItem_def getLabel_def nodeText_def getIcon_def)
      (simp add: getText_def clampOffset_def openDocument_def)
  ultimately show ?thesis
    by simp
qed

subsection \<open>C9: the children field\<close>

text \<open>
  C9 says that the \<^verbatim>\<open>children\<close> field is absent for scalar nodes. Every object literal of the
  two builders sets \<^verbatim>\<open>children: []\<close>: the number in \<^verbatim>\<open>[1]\<close> is a node of the tree, of type
  \<^verbatim>\<open>number\<close>, and its \<^verbatim>\<open>children\<close> field is present and empty.
\<close>

theorem scalar_node_has_children_field:
  "tree (parseTree (fixedParsers (Some jsonArrayDoc) YamlThrows)
      (Some (openDocument ''json'' ''[1]'')) initialProvider) = Some 0 \<and>
   reach (heap (nodes (parseTree (fixedParsers (Some jsonArrayDoc) YamlThrows)
      (Some (openDocument ''json'' ''[1]'')) initialProvider))) 0 1 \<and>
   ntype (heap (nodes (parseTree (fixedParsers (Some jsonArrayDoc) YamlThrows)
      (Some (openDocument ''json'' ''[1]'')) initialProvider)) ! 1) = TNumber \<and>
   children (heap (nodes (parseTree (fixedParsers (Some jsonArrayDoc) YamlThrows)
      (Some (openDocument ''json'' ''[1]'')) initialProvider)) ! 1) = Some []"
  using parsed_array_reach by (simp add: parsed_array)

text \<open>
  C9 as the code has it: after a parse, JSON or YAML, every node reachable from the root
  has a \<^verbatim>\<open>children\<close> field, and the list is empty for a scalar node (string, number, boolean,
  null); only a node of type object or array can have children.
\<close>

theorem children_of_built_nodes:
  assumes "tree (parseTree ps active p) = Some r"
    and "reach (heap (nodes (parseTree ps active p))) r a"
  shows "\<exists>cs. children (heap (nodes (parseTree ps active p)) ! a) = Some cs \<and>
              (ntype (heap (nodes (parseTree ps active p)) ! a) \<noteq> TObject \<and>
               ntype (heap (nodes (parseTree ps active p)) ! a) \<noteq> TArray \<longrightarrow> cs = [])"
proof -
  let ?s = "nodes (parseTree ps active p)"
  have wf: "wfStore ?s" and r: "r < length (heap ?s)"
    using parseTree_wf [of ps active p] assms(1) by auto
  have "a < length (heap ?s)"
    using reach_valid [OF assms(2) wf r] .
  from wf_children [OF wf this] show ?thesis
    by (auto simp: containerType_def)
qed


theorem children_of_built_nodes_witness:
  "tree (parseTree (fixedParsers (Some jsonArrayDoc) YamlThrows)
      (Some (openDocument ''json'' ''[1]'')) initialProvider) = Some 0 \<and>
   reach (heap (nodes (parseTree (fixedParsers (Some jsonArrayDoc) YamlThrows)
      (Some (openDocument ''json'' ''[1]'')) initialProvider))) 0 1 \<and>
   children (heap (nodes (parseTree (fixedParsers (Some jsonArrayDoc) YamlThrows)
      (Some (openDocument ''json'' ''[1]'')) initialProvider)) ! 1) = Some []"
  using parsed_array_reach
    children_of_built_nodes [of "fixedParsers (Some jsonArrayDoc) YamlThrows"
      "Some (openDocument ''json'' ''[1]'')" initialProvider 0 1]
  by (simp add: parsed_array)

subsection \<open>C4: the index after a parse\<close>

text \<open>
  C4 says that after a parse the offsets of the nodes of the tree are unique, so that no
  entry of the index is overwritten. The builders do not see to that: they take the offsets
  from the ranges of the parser and put the node synthesized for a pair without a value at
  the end of its key span. In the parse of the YAML text \<^verbatim>\<open>[?]\<close> the mapping inside the
  sequence starts at offset 2, where its empty key starts and ends, so the synthesized
  node is at offset 2 as well: both are nodes of the tree, and the entry at 2 is the
  synthesized node, not the mapping.
\<close>

theorem flow_key_shares_offset_with_its_mapping:
  "tree (parseTree (fixedParsers None (YamlDocument (Some yamlFlowSeqDoc)))
      (Some (openDocument ''yaml'' ''[?]'')) initialProvider) = Some 0 \<and>
   reach (heap (nodes (parseTree (fixedParsers None (YamlDocument (Some yamlFlowSeqDoc)))
      (Some (openDocument ''yaml'' ''[?]'')) initialProvider))) 0 1 \<and>
   reach (heap (nodes (parseTree (fixedParsers None (YamlDocument (Some yamlFlowSeqDoc)))
      (Some (openDocument ''yaml'' ''[?]'')) initialProvider))) 0 2 \<and>
   offset (heap (nodes (parseTree (fixedParsers None (YamlDocument (Some yamlFlowSeqDoc)))
      (Some (openDocument ''yaml'' ''[?]'')) initialProvider)) ! 1) =
   offset (heap (nodes (parseTree (fixedParsers None (YamlDocument (Some yamlFlowSeqDoc)))
      (Some (openDocument ''yaml'' ''[?]'')) initialProvider)) ! 2) \<and>
   nodeMap (nodes (parseTree (fixedParsers None (YamlDocument (Some yamlFlowSeqDoc)))
      (Some (openDocument ''yaml'' ''[?]'')) initialProvider))
     (offset (heap (nodes (parseTree (fixedParsers None (YamlDocument (Some yamlFlowSeqDoc)))
      (Some (openDocument ''yaml'' ''[?]'')) initialProvider)) ! 1)) = Some 2"
proof -
  let ?h = "heap (nodes (parseTree (fixedParsers None (YamlDocument (Some yamlFlowSeqDoc)))
      (Some (openDocument ''yaml'' ''[?]'')) initialProvider))"
  have one: "reach ?h 0 1"
    by (rule reach.reach_child [OF reach.reach_root, where cs = "[1]"]) (simp_all add: parsed_flow_seq)
  have "reach ?h 0 2"
    by (rule reach.reach_child [OF one, where cs = "[2]"]) (simp_all add: parsed_flow_seq)
  with one show ?thesis
    by (simp add: parsed_flow_seq)
qed


text \<open>
  C4 as the code has it: after a parse, JSON or YAML, that yields a tree, the index has an
  entry at the offset of every node reachable from the root. The entry is a node of the
  tree with that offset, the one built last, and it is the node itself whenever no other
  node of the tree has the same offset.
\<close>

theorem offset_index_after_parse:
  assumes "tree (parseTree ps active p) = Some r"
    and "reach (heap (nodes (parseTree ps active p))) r a"
  shows "\<exists>b. nodeMap (nodes (parseTree ps active p))
               (offset (heap (nodes (parseTree ps active p)) ! a)) = Some b \<and>
             reach (heap (nodes (parseTree ps active p))) r b \<and>
             offset (heap (nodes (parseTree ps active p)) ! b) =
               offset (heap (nodes (parseTree ps active p)) ! a) \<and>
             a \<le> b \<and>
             ((\<forall>c. reach (heap (nodes (parseTree ps active p))) r c \<and>
                   offset (heap (nodes (parseTree ps active p)) ! c) =
                     offset (heap (nodes (parseTree ps active p)) ! a) \<longrightarrow> c = a) \<longrightarrow>
              b = a)"
proof -
  let ?s = "nodes (parseTree ps active p)"
  have wf: "wfStore ?s" and r: "r < length (heap ?s)"
    using parseTree_wf [of ps active p] assms(1) by auto
  have "a < length (heap ?s)"
    using reach_valid [OF assms(2) wf r] .
  from wf_index [OF wf this] obtain b where b:
    "nodeMap ?s (offset (heap ?s ! a)) = Some b" "b < length (heap ?s)"
    "offset (heap ?s ! b) = offset (heap ?s ! a)" "a \<le> b"
    by blast
  have "reach (heap ?s) r b"
    using parseTree_all_reachable [OF assms(1) b(2)] .
  with b show ?thesis by blast
qed

theorem offset_index_after_parse_witness:
  "tree (parseTree (fixedParsers (Some jsonArrayDoc) YamlThrows)
      (Some (openDocument ''json'' ''[1]'')) initialProvider) = Some 0 \<and>
   reach (heap (nodes (parseTree (fixedParsers (Some jsonArrayDoc) YamlThrows)
      (Some (openDocument ''json'' ''[1]'')) initialProvider))) 0 1 \<and>
   nodeMap (nodes (parseTree (fixedParsers (Some jsonArrayDoc) YamlThrows)
      (Some (openDocument ''json'' ''[1]'')) initialProvider))
     (offset (heap (nodes (parseTree (fixedParsers (Some jsonArrayDoc) YamlThrows)
      (Some (openDocument ''json'' ''[1]'')) initialProvider)) ! 1)) = Some 1"
  using parsed_array_reach
    offset_index_after_parse [of "fixedParsers (Some jsonArrayDoc) YamlThrows"
      "Some (openDocument ''json'' ''[1]'')" initialProvider 0 1]
  by (simp add: parsed_array)

end
